theory Spec2Isabelle
  imports Complex_Main "HOL-Library.Log_Nat" "HOL-Library.Multiset"
begin

section \<open>JavaScript values used by the dependency reporter\<close>

text \<open>
  The program is TypeScript (\<^verbatim>\<open>src/licenses.ts\<close>), so its numbers are IEEE doubles and its
  strings are sequences of code units. A string is modelled as a \<open>string\<close> (one \<open>char\<close>
  per code unit, which covers the code units below 256). A number is a \<open>jsnum\<close>: \<open>NaN\<close>,
  the two infinities, or a finite double given by its exact rational value. The sign of
  zero is not kept: \<open>-0\<close> and \<open>+0\<close> are both falsy, compare equal and print alike in every
  operation below.
\<close>

datatype jsnum = NaN | NegInf | Fin rat | PosInf

text \<open>The relational operators \<^verbatim>\<open><\<close> and \<^verbatim>\<open>></\<close> on numbers: any comparison with NaN is false.\<close>

fun js_less :: "jsnum \<Rightarrow> jsnum \<Rightarrow> bool" where
  "js_less NaN _ = False"
| "js_less _ NaN = False"
| "js_less _ NegInf = False"
| "js_less NegInf _ = True"
| "js_less PosInf _ = False"
| "js_less (Fin a) PosInf = True"
| "js_less (Fin a) (Fin b) = (a < b)"

definition js_greater :: "jsnum \<Rightarrow> jsnum \<Rightarrow> bool" where
  "js_greater a b = js_less b a"

text \<open>Unary minus, and truthiness of a number (\<open>0\<close> and \<open>NaN\<close> are falsy).\<close>

fun js_neg :: "jsnum \<Rightarrow> jsnum" where
  "js_neg NaN = NaN"
| "js_neg NegInf = PosInf"
| "js_neg PosInf = NegInf"
| "js_neg (Fin a) = Fin (- a)"

fun truthy :: "jsnum \<Rightarrow> bool" where
  "truthy NaN = False"
| "truthy (Fin a) = (a \<noteq> 0)"
| "truthy _ = True"

subsection \<open>Rounding a rational to the nearest double\<close>

text \<open>
  \<open>binexp x\<close> is the binary exponent \<open>\<lfloor>log\<^sub>2 x\<rfloor>\<close> of a positive rational; a double has 53
  significant bits and its last bit weighs at least \<open>2\<^sup>-\<^sup>1\<^sup>0\<^sup>7\<^sup>4\<close>. Ties go to the even
  significand \<open>m\<close>, which lies between \<open>2\<^sup>5\<^sup>2\<close> and \<open>2\<^sup>5\<^sup>3\<close> unless the result is subnormal. The
  largest double is \<open>(2\<^sup>5\<^sup>3 - 1) \<sqdot> 2\<^sup>9\<^sup>7\<^sup>1\<close>; a result of \<open>2\<^sup>1\<^sup>0\<^sup>2\<^sup>4\<close> or more is infinite.
\<close>

definition binexp :: "rat \<Rightarrow> int" where
  "binexp x = (let (p, q) = quotient_of x; e = bitlen p - bitlen q
               in if power_int 2 e \<le> x then e else e - 1)"

definition roundHalfEven :: "rat \<Rightarrow> int" where
  "roundHalfEven y = (let f = \<lfloor>y\<rfloor>; d = y - of_int f
                      in if d < 1 / 2 then f else if 1 / 2 < d then f + 1
                         else if even f then f else f + 1)"

definition roundPos :: "rat \<Rightarrow> jsnum" where
  "roundPos x = (let u = max (binexp x - 52) (- 1074);
                     m = roundHalfEven (x / power_int 2 u)
                 in if 971 < u \<or> (u = 971 \<and> 9007199254740992 \<le> m) then PosInf
                    else Fin (of_int m * power_int 2 u))"

text \<open>
  An integer of magnitude up to \<open>2\<^sup>5\<^sup>3\<close> is a double already and is returned as it is;
  every other value is rounded.
\<close>

definition isSafeInteger :: "rat \<Rightarrow> bool" where
  "isSafeInteger x = (x = of_int \<lfloor>x\<rfloor> \<and> \<bar>x\<bar> \<le> 9007199254740992)"

definition toDouble :: "rat \<Rightarrow> jsnum" where
  "toDouble x = (if isSafeInteger x then Fin x
                 else if x < 0 then js_neg (roundPos (- x)) else roundPos x)"

definition intToDouble :: "int \<Rightarrow> jsnum" where
  "intToDouble n = toDouble (of_int n)"

subsection \<open>\<^verbatim>\<open>Number(string)\<close>\<close>

text \<open>
  \<^verbatim>\<open>Number\<close> applied to a string (ECMAScript StringToNumber): white space and line
  terminators are trimmed; the empty string is \<open>0\<close>; then the whole rest must be a signed
  decimal literal (digits, optional fraction, optional exponent, or \<^verbatim>\<open>Infinity\<close>) or an
  unsigned binary, octal or hexadecimal integer literal; anything else is \<open>NaN\<close>. It never
  throws.
\<close>

definition isWhiteSpace :: "char \<Rightarrow> bool" where
  "isWhiteSpace c = ((of_char c :: int) \<in> {9, 10, 11, 12, 13, 32, 160})"

definition trim :: "string \<Rightarrow> string" where
  "trim s = rev (dropWhile isWhiteSpace (rev (dropWhile isWhiteSpace s)))"

definition isDigit :: "char \<Rightarrow> bool" where
  "isDigit c = (48 \<le> (of_char c :: int) \<and> (of_char c :: int) \<le> 57)"

text \<open>The value of a digit in a base up to 16, if the character is one.\<close>

definition digitOf :: "int \<Rightarrow> char \<Rightarrow> int option" where
  "digitOf base c =
     (let n = (of_char c :: int);
          d = (if 48 \<le> n \<and> n \<le> 57 then Some (n - 48)
               else if 97 \<le> n \<and> n \<le> 102 then Some (n - 87)
               else if 65 \<le> n \<and> n \<le> 70 then Some (n - 55)
               else None)
      in case d of None \<Rightarrow> None | Some v \<Rightarrow> if v < base then Some v else None)"

fun digitsVal :: "int \<Rightarrow> int \<Rightarrow> string \<Rightarrow> int option" where
  "digitsVal base acc [] = Some acc"
| "digitsVal base acc (c # cs) =
     (case digitOf base c of None \<Rightarrow> None
      | Some d \<Rightarrow> digitsVal base (acc * base + d) cs)"

definition natLiteral :: "int \<Rightarrow> string \<Rightarrow> int option" where
  "natLiteral base s = (if s = [] then None else digitsVal base 0 s)"

definition signedInteger :: "string \<Rightarrow> int option" where
  "signedInteger s =
     (case s of
        c # cs \<Rightarrow>
          if c = CHR ''+'' then natLiteral 10 cs
          else if c = CHR ''-'' then map_option uminus (natLiteral 10 cs)
          else natLiteral 10 s
      | [] \<Rightarrow> None)"

text \<open>An unsigned decimal literal as mantissa and decimal exponent.\<close>

definition unsignedDecimal :: "string \<Rightarrow> (int \<times> int) option" where
  "unsignedDecimal s =
     (let ip = takeWhile isDigit s; r1 = dropWhile isDigit s;
          fp = (case r1 of c # t \<Rightarrow> if c = CHR ''.'' then takeWhile isDigit t else [] | [] \<Rightarrow> []);
          r2 = (case r1 of c # t \<Rightarrow> if c = CHR ''.'' then dropWhile isDigit t else r1 | [] \<Rightarrow> [])
      in if ip = [] \<and> fp = [] then None
         else case natLiteral 10 (ip @ fp) of
                None \<Rightarrow> None
              | Some m \<Rightarrow>
                  (case r2 of
                     [] \<Rightarrow> Some (m, - int (length fp))
                   | c # t \<Rightarrow>
                       if c = CHR ''e'' \<or> c = CHR ''E'' then
                         (case signedInteger t of
                            None \<Rightarrow> None
                          | Some k \<Rightarrow> Some (m, k - int (length fp)))
                       else None))"

definition unsignedDecimalValue :: "string \<Rightarrow> jsnum" where
  "unsignedDecimalValue s =
     (if s = ''Infinity'' then PosInf
      else case unsignedDecimal s of
             None \<Rightarrow> NaN
           | Some (m, k) \<Rightarrow>
               if 0 \<le> k then intToDouble (m * 10 ^ nat k)
               else toDouble (of_int m / 10 ^ nat (- k)))"

definition nonDecimalValue :: "string \<Rightarrow> jsnum option" where
  "nonDecimalValue s =
     (case s of
        z # p # ds \<Rightarrow>
          if z \<noteq> CHR ''0'' then None
          else if p = CHR ''x'' \<or> p = CHR ''X'' then
            Some (case natLiteral 16 ds of None \<Rightarrow> NaN | Some n \<Rightarrow> intToDouble n)
          else if p = CHR ''o'' \<or> p = CHR ''O'' then
            Some (case natLiteral 8 ds of None \<Rightarrow> NaN | Some n \<Rightarrow> intToDouble n)
          else if p = CHR ''b'' \<or> p = CHR ''B'' then
            Some (case natLiteral 2 ds of None \<Rightarrow> NaN | Some n \<Rightarrow> intToDouble n)
          else None
      | _ \<Rightarrow> None)"

definition Number :: "string \<Rightarrow> jsnum" where
  "Number str =
     (let s = trim str
      in if s = [] then Fin 0
         else case nonDecimalValue s of
                Some v \<Rightarrow> v
              | None \<Rightarrow>
                  (case s of
                     c # cs \<Rightarrow>
                       if c = CHR ''+'' then unsignedDecimalValue cs
                       else if c = CHR ''-'' then js_neg (unsignedDecimalValue cs)
                       else unsignedDecimalValue s
                   | [] \<Rightarrow> Fin 0))"

subsection \<open>Decimal integers\<close>

text \<open>
  A non-empty string of decimal digits and the integer it denotes. Version components
  read as integers and the array-index keys of objects are such strings.
\<close>

definition decimalValue :: "string \<Rightarrow> int" where
  "decimalValue s = foldl (\<lambda>acc c. acc * 10 + (of_char c - 48)) 0 s"

definition isDecimalInteger :: "string \<Rightarrow> bool" where
  "isDecimalInteger s = (s \<noteq> [] \<and> list_all isDigit s)"

section \<open>Version comparator\<close>

text \<open>\<^verbatim>\<open>String.prototype.split\<close> with a one-character separator: never an empty array.\<close>

fun split_acc :: "char \<Rightarrow> string \<Rightarrow> string \<Rightarrow> string list" where
  "split_acc sep cur [] = [cur]"
| "split_acc sep cur (c # cs) =
     (if c = sep then cur # split_acc sep [] cs else split_acc sep (cur @ [c]) cs)"

definition split :: "string \<Rightarrow> char \<Rightarrow> string list" where
  "split s sep = split_acc sep [] s"

text \<open>
  \<^verbatim>\<open>_cleanVersion\<close> (line 214): \<^verbatim>\<open>version.replace(/^[\^~>=<]/, '').trim()\<close> removes one leading
  character of the class, then trims white space.
\<close>

definition isRangeOp :: "char \<Rightarrow> bool" where
  "isRangeOp c = (c \<in> set ''^~>=<'')"

definition cleanVersion :: "string \<Rightarrow> string" where
  "cleanVersion version =
     trim (case version of c # cs \<Rightarrow> if isRangeOp c then cs else version | [] \<Rightarrow> [])"

text \<open>
  \<^verbatim>\<open>parts[i] || 0\<close>: an index past the end reads \<^verbatim>\<open>undefined\<close>, and \<^verbatim>\<open>undefined\<close>, \<open>NaN\<close> and \<open>0\<close>
  are all falsy, so each of them yields \<open>0\<close>.
\<close>

definition partOrZero :: "jsnum list \<Rightarrow> nat \<Rightarrow> jsnum" where
  "partOrZero parts i =
     (if i < length parts then (if truthy (parts ! i) then parts ! i else Fin 0) else Fin 0)"

text \<open>
  The \<^verbatim>\<open>for\<close> loop of \<^verbatim>\<open>_isVersionOutdated\<close> (lines 225 to 238), from index \<open>i\<close> on.
\<close>

function compareFrom :: "jsnum list \<Rightarrow> jsnum list \<Rightarrow> nat \<Rightarrow> bool" where
  "compareFrom installedParts latestParts i =
     (if i < max (length installedParts) (length latestParts) then
        (let installedPart = partOrZero installedParts i;
             latestPart = partOrZero latestParts i
         in if js_less installedPart latestPart then True
            else if js_greater installedPart latestPart then False
            else compareFrom installedParts latestParts (Suc i))
      else False)"
  by pat_completeness auto
termination
  by (relation "measure (\<lambda>(ip, lp, i). max (length ip) (length lp) - i)") auto

declare compareFrom.simps [simp del]

text \<open>
  \<^verbatim>\<open>_isVersionOutdated\<close> (line 219). Both arguments are strings, and on strings neither
  \<^verbatim>\<open>split\<close>, \<^verbatim>\<open>map(Number)\<close> nor the loop can throw, so the \<^verbatim>\<open>catch\<close> branch is not
  reached and the function is the value of the \<^verbatim>\<open>try\<close> block.
\<close>

definition isVersionOutdated :: "string \<Rightarrow> string \<Rightarrow> bool" where
  "isVersionOutdated installed latest =
     (let installedParts = map Number (split installed (CHR ''.''));
          latestParts = map Number (split latest (CHR ''.''))
      in compareFrom installedParts latestParts 0)"

subsection \<open>The comparison as the specification words it\<close>

text \<open>
  These definitions follow the specification, not the code. A component read as an
  integer is a decimal integer in the sense above, and a numeric version has only such
  components.
\<close>

definition isNumericVersion :: "string \<Rightarrow> bool" where
  "isNumericVersion v = list_all isDecimalInteger (split v (CHR ''.''))"

definition componentValues :: "string \<Rightarrow> int list" where
  "componentValues v = map decimalValue (split v (CHR ''.''))"

text \<open>
  Pairwise, left to right, a missing component counting as \<open>0\<close>: true at the first position
  where installed is less, false at the first where it is greater, false when none differs.
\<close>

fun spec_compare :: "int list \<Rightarrow> int list \<Rightarrow> bool" where
  "spec_compare [] [] = False"
| "spec_compare (a # as) [] =
     (if a < 0 then True else if 0 < a then False else spec_compare as [])"
| "spec_compare [] (b # bs) =
     (if 0 < b then True else if b < 0 then False else spec_compare [] bs)"
| "spec_compare (a # as) (b # bs) =
     (if a < b then True else if b < a then False else spec_compare as bs)"

definition spec_isOutdated :: "string \<Rightarrow> string \<Rightarrow> bool" where
  "spec_isOutdated installed latest =
     spec_compare (componentValues installed) (componentValues latest)"

text \<open>The component at a position, \<open>0\<close> when it is missing.\<close>

definition nthOr0 :: "int list \<Rightarrow> nat \<Rightarrow> int" where
  "nthOr0 xs i = (if i < length xs then xs ! i else 0)"

text \<open>Equal component-wise, with missing trailing components defaulting to \<open>0\<close>.\<close>

definition padTo :: "nat \<Rightarrow> int list \<Rightarrow> int list" where
  "padTo n xs = xs @ replicate (n - length xs) 0"

definition componentwiseEqual :: "string \<Rightarrow> string \<Rightarrow> bool" where
  "componentwiseEqual a b =
     (let xs = componentValues a; ys = componentValues b;
          n = max (length xs) (length ys)
      in padTo n xs = padTo n ys)"

text \<open>Every component is an integer that a double holds exactly.\<close>

definition isExactVersion :: "string \<Rightarrow> bool" where
  "isExactVersion v =
     list_all (\<lambda>c. isDecimalInteger c \<and> decimalValue c \<le> 9007199254740992)
       (split v (CHR ''.''))"

section \<open>Data model\<close>

text \<open>
  The interfaces of lines 4 to 57. An optional field is an \<open>option\<close>. A
  \<^verbatim>\<open>Record<string, string>\<close> of the manifest is given by its \<^verbatim>\<open>Object.entries\<close>, the
  pairs in the order the program visits them. The fields \<^verbatim>\<open>downloads\<close> and \<^verbatim>\<open>size\<close> of the
  registry record are never read and are left out. Field names of the registry record
  and of a dependency carry a prefix, since \<^verbatim>\<open>name\<close> and others occur in several
  interfaces; \<^verbatim>\<open>keywords\<close> is a reserved word of the prover and is \<open>pkg_keywords\<close>.
\<close>

record PackageJson =
  dependencies :: "(string \<times> string) list option"
  devDependencies :: "(string \<times> string) list option"
  peerDependencies :: "(string \<times> string) list option"

datatype dependencyType = dependency | devDependency | peerDependency

record Dep =
  dep_name :: string
  dep_version :: string
  dep_type :: dependencyType

record AuthorObject =
  author_name :: string
  author_email :: "string option"

record RepositoryObject =
  repo_type :: string
  repo_url :: string

record TimeObject =
  time_created :: string
  time_modified :: string

record NpmPackageInfo =
  npm_name :: string
  npm_version :: string
  npm_description :: "string option"
  npm_homepage :: "string option"
  npm_repository :: "RepositoryObject option"
  npm_license :: "string option"
  npm_author :: "(string + AuthorObject) option"
  npm_keywords :: "string list option"
  npm_maintainers :: "(string \<times> string) list option"
  npm_time :: "TimeObject option"

record PackageAnalysis =
  name :: string
  installedVersion :: string
  latestVersion :: string
  description :: string
  license :: string
  author :: string
  homepage :: string
  repository :: string
  pkg_keywords :: "string list"
  maintainers :: nat
  created :: string
  lastModified :: string
  isOutdated :: bool
  securityIssues :: "string list option"
  dependencyType :: dependencyType

text \<open>
  A value stored in a tally object. The interface types it as a number, and it is a
  count unless the key meets a property inherited from \<^verbatim>\<open>Object.prototype\<close>, when it is
  a string (see \<open>increment\<close>). Counts and totals are lengths of arrays, far below \<open>2\<^sup>5\<^sup>3\<close>,
  so they are natural numbers here and their arithmetic is exact.
\<close>

datatype jsval = JNum nat | JStr string

text \<open>An object used as a dictionary: its own properties, in the order of their creation.\<close>

type_synonym jsobject = "(string \<times> jsval) list"

record AnalysisReport =
  totalPackages :: nat
  outdatedPackages :: nat
  packagesWithSecurityIssues :: nat
  licenseDistribution :: jsobject
  topMaintainers :: "(string \<times> jsval) list"
  packages :: "PackageAnalysis list"

text \<open>The mutable fields of the class \<^verbatim>\<open>PackageAnalyzer\<close> (lines 60 and 62).\<close>

record PackageAnalyzer =
  analyzer_packages :: "PackageAnalysis list"
  requestCount :: nat

datatype error = ManifestError | FetchError string

text \<open>
  The registry is outside the program: \<open>registry n name\<close> is what the \<open>n\<close>-th request of
  the run, for \<open>name\<close>, comes back with, an error for a network failure or a response that
  is not OK (\<^verbatim>\<open>_fetchPackageInfo\<close>, line 196).
\<close>

type_synonym registry = "nat \<Rightarrow> string \<Rightarrow> error + NpmPackageInfo"

section \<open>Manifest reader and per-package analysis\<close>

definition entriesOf :: "dependencyType \<Rightarrow> (string \<times> string) list option \<Rightarrow> Dep list" where
  "entriesOf t entries =
     (case entries of
        None \<Rightarrow> []
      | Some es \<Rightarrow> map (\<lambda>(n, v). \<lparr>dep_name = n, dep_version = v, dep_type = t\<rparr>) es)"

definition extractDependencies :: "PackageJson \<Rightarrow> Dep list" where
  "extractDependencies packageJson =
     entriesOf dependency (dependencies packageJson)
     @ entriesOf devDependency (devDependencies packageJson)
     @ entriesOf peerDependency (peerDependencies packageJson)"

text \<open>\<^verbatim>\<open>x || d\<close> on an optional string: a missing and an empty string are both falsy.\<close>

definition orString :: "string option \<Rightarrow> string \<Rightarrow> string" where
  "orString x d = (case x of None \<Rightarrow> d | Some s \<Rightarrow> if s = [] then d else s)"

definition formatAuthor :: "(string + AuthorObject) option \<Rightarrow> string" where
  "formatAuthor a =
     (case a of
        None \<Rightarrow> ''unknown''
      | Some (Inl s) \<Rightarrow> if s = [] then ''unknown'' else s
      | Some (Inr obj) \<Rightarrow> author_name obj)"

definition formatRepository :: "RepositoryObject option \<Rightarrow> string" where
  "formatRepository repo = (case repo of None \<Rightarrow> [] | Some r \<Rightarrow> repo_url r)"

text \<open>
  \<^verbatim>\<open>_analyzePackage\<close> (line 164): counts the request, fetches, and on a response builds
  the entry; a failed fetch is the thrown error.
\<close>

definition analyzePackage ::
  "registry \<Rightarrow> PackageAnalyzer \<Rightarrow> string \<Rightarrow> string \<Rightarrow> dependencyType
     \<Rightarrow> (error + PackageAnalysis) \<times> PackageAnalyzer" where
  "analyzePackage fetch this pkgName installed t =
     (let this' = this\<lparr>requestCount := requestCount this + 1\<rparr>
      in case fetch (requestCount this') pkgName of
           Inl e \<Rightarrow> (Inl e, this')
         | Inr packageInfo \<Rightarrow>
             (let latest = npm_version packageInfo;
                  cleanInstalled = cleanVersion installed;
                  outdated = isVersionOutdated cleanInstalled latest
              in (Inr \<lparr>name = pkgName,
                       installedVersion = installed,
                       latestVersion = latest,
                       description = orString (npm_description packageInfo) [],
                       license = orString (npm_license packageInfo) ''unknown'',
                       author = formatAuthor (npm_author packageInfo),
                       homepage = orString (npm_homepage packageInfo) [],
                       repository = formatRepository (npm_repository packageInfo),
                       pkg_keywords = (case npm_keywords packageInfo of None \<Rightarrow> [] | Some ks \<Rightarrow> ks),
                       maintainers =
                         (case npm_maintainers packageInfo of None \<Rightarrow> 0 | Some ms \<Rightarrow> length ms),
                       created =
                         (case npm_time packageInfo of None \<Rightarrow> [] | Some t \<Rightarrow> time_created t),
                       lastModified =
                         (case npm_time packageInfo of None \<Rightarrow> [] | Some t \<Rightarrow> time_modified t),
                       isOutdated = outdated,
                       securityIssues = None,
                       dependencyType = t\<rparr>, this')))"

text \<open>The minimal entry pushed in the \<^verbatim>\<open>catch\<close> branch (lines 98 to 113).\<close>

definition failedEntry :: "Dep \<Rightarrow> PackageAnalysis" where
  "failedEntry dep =
     \<lparr>name = dep_name dep,
      installedVersion = dep_version dep,
      latestVersion = ''unknown'',
      description = ''Failed to fetch information'',
      license = ''unknown'',
      author = ''unknown'',
      homepage = [],
      repository = [],
      pkg_keywords = [],
      maintainers = 0,
      created = [],
      lastModified = [],
      isOutdated = False,
      securityIssues = None,
      dependencyType = dep_type dep\<rparr>"

text \<open>
  One turn of the loop of \<^verbatim>\<open>analyzePackageJson\<close> (lines 80 to 115). The pauses change no
  state and are left out.
\<close>

definition analyzeDep :: "registry \<Rightarrow> PackageAnalyzer \<Rightarrow> Dep \<Rightarrow> PackageAnalyzer" where
  "analyzeDep fetch this dep =
     (case analyzePackage fetch this (dep_name dep) (dep_version dep) (dep_type dep) of
        (Inr analysis, this') \<Rightarrow>
          this'\<lparr>analyzer_packages := analyzer_packages this' @ [analysis]\<rparr>
      | (Inl e, this') \<Rightarrow>
          this'\<lparr>analyzer_packages := analyzer_packages this' @ [failedEntry dep]\<rparr>)"

section \<open>Aggregator\<close>

subsection \<open>A plain object as a tally\<close>

text \<open>
  The tallies are object literals \<^verbatim>\<open>{}\<close>, whose prototype is \<^verbatim>\<open>Object.prototype\<close>. Reading
  a key that is not an own property finds the inherited member of that name, if there is
  one: a function, or for \<^verbatim>\<open>__proto__\<close> the prototype object itself. Such a value is truthy
  and \<^verbatim>\<open>+ 1\<close> concatenates to its string form, given here as Node prints it.
\<close>

definition inheritedText :: "string \<Rightarrow> string option" where
  "inheritedText k =
     (if k = ''__proto__'' then Some ''[object Object]''
      else if k = ''constructor'' then Some ''function Object() { [native code] }''
      else if k \<in> set [''__defineGetter__'', ''__defineSetter__'', ''hasOwnProperty'',
                        ''__lookupGetter__'', ''__lookupSetter__'', ''isPrototypeOf'',
                        ''propertyIsEnumerable'', ''toString'', ''valueOf'', ''toLocaleString'']
      then Some (''function '' @ k @ ''() { [native code] }'')
      else None)"

text \<open>Assignment to an own property: in place when it exists, else created last.\<close>

fun setProp :: "string \<Rightarrow> jsval \<Rightarrow> jsobject \<Rightarrow> jsobject" where
  "setProp k v [] = [(k, v)]"
| "setProp k v ((k', v') # rest) =
     (if k' = k then (k, v) # rest else (k', v') # setProp k v rest)"

text \<open>
  \<^verbatim>\<open>obj[k] = (obj[k] || 0) + 1\<close> (lines 272 and 279). An assignment to \<^verbatim>\<open>__proto__\<close> runs the
  inherited setter, which ignores a value that is not an object, so no property is
  created; every other key becomes an own property.
\<close>

definition increment :: "jsobject \<Rightarrow> string \<Rightarrow> jsobject" where
  "increment obj k =
     (case map_of obj k of
        Some (JNum n) \<Rightarrow> setProp k (JNum (n + 1)) obj
      | Some (JStr s) \<Rightarrow> setProp k (if s = [] then JNum 1 else JStr (s @ ''1'')) obj
      | None \<Rightarrow>
          (case inheritedText k of
             None \<Rightarrow> setProp k (JNum 1) obj
           | Some t \<Rightarrow> if k = ''__proto__'' then obj else setProp k (JStr (t @ ''1'')) obj))"

text \<open>
  \<^verbatim>\<open>Object.entries\<close>: the keys that are array indices (canonical decimal integers up to
  \<open>2\<^sup>3\<^sup>2 - 2\<close>) come first, in ascending numeric order, then the other keys in the order of
  their creation.
\<close>

definition isArrayIndex :: "string \<Rightarrow> bool" where
  "isArrayIndex k =
     (isDecimalInteger k \<and> (k = ''0'' \<or> hd k \<noteq> CHR ''0'') \<and> decimalValue k \<le> 4294967294)"

definition Object_entries :: "(string \<times> 'v) list \<Rightarrow> (string \<times> 'v) list" where
  "Object_entries obj =
     sort_key (\<lambda>(k, v). decimalValue k) (filter (\<lambda>(k, v). isArrayIndex k) obj)
     @ filter (\<lambda>(k, v). \<not> isArrayIndex k) obj"

subsection \<open>Sorting with a comparator\<close>

text \<open>
  \<^verbatim>\<open>Array.prototype.sort(comparefn)\<close> is stable, and for a consistent comparator its
  result is the stable sort whatever the algorithm of the engine. \<open>sortBy\<close> is that stable
  sort: it inserts from the right, an element going behind those it compares greater
  than. It stands for the program's sort only where the comparator is consistent.
\<close>

fun insertBy :: "('a \<Rightarrow> 'a \<Rightarrow> jsnum) \<Rightarrow> 'a \<Rightarrow> 'a list \<Rightarrow> 'a list" where
  "insertBy cmp x [] = [x]"
| "insertBy cmp x (y # ys) =
     (if js_less (Fin 0) (cmp x y) then y # insertBy cmp x ys else x # y # ys)"

definition sortBy :: "('a \<Rightarrow> 'a \<Rightarrow> jsnum) \<Rightarrow> 'a list \<Rightarrow> 'a list" where
  "sortBy cmp xs = foldr (insertBy cmp) xs []"

text \<open>The number a tally value converts to, and subtraction of numbers.\<close>

definition toNumber :: "jsval \<Rightarrow> jsnum" where
  "toNumber v = (case v of JNum n \<Rightarrow> Fin (of_int (int n)) | JStr s \<Rightarrow> Number s)"

fun js_sub :: "jsnum \<Rightarrow> jsnum \<Rightarrow> jsnum" where
  "js_sub NaN _ = NaN"
| "js_sub _ NaN = NaN"
| "js_sub (Fin a) (Fin b) = toDouble (a - b)"
| "js_sub PosInf PosInf = NaN"
| "js_sub NegInf NegInf = NaN"
| "js_sub PosInf _ = PosInf"
| "js_sub NegInf _ = NegInf"
| "js_sub _ PosInf = NegInf"
| "js_sub _ NegInf = PosInf"

text \<open>The comparator \<^verbatim>\<open>([, a], [, b]) => b - a\<close> (lines 284 and 312).\<close>

definition byCountDescending :: "string \<times> jsval \<Rightarrow> string \<times> jsval \<Rightarrow> jsnum" where
  "byCountDescending x y = js_sub (toNumber (snd y)) (toNumber (snd x))"

text \<open>
  What the sort reads off a comparator result: negative, zero or positive, a \<open>NaN\<close>
  counting as zero.
\<close>

definition compareSign :: "jsnum \<Rightarrow> int" where
  "compareSign v = (if js_less v (Fin 0) then - 1 else if js_less (Fin 0) v then 1 else 0)"

text \<open>
  A consistent comparator on the elements at hand, in the terms of the standard: every
  element equals itself, equality is symmetric and transitive, and so are "before" and
  "after" transitive.
\<close>

definition consistentBy :: "('a \<Rightarrow> 'a \<Rightarrow> jsnum) \<Rightarrow> 'a list \<Rightarrow> bool" where
  "consistentBy cmp xs =
     list_all (\<lambda>a. compareSign (cmp a a) = 0 \<and>
       list_all (\<lambda>b.
         (if compareSign (cmp a b) = 0 then compareSign (cmp b a) = 0 else True) \<and>
         list_all (\<lambda>c.
           (if compareSign (cmp a b) = 0 \<and> compareSign (cmp b c) = 0
            then compareSign (cmp a c) = 0 else True) \<and>
           (if compareSign (cmp a b) < 0 \<and> compareSign (cmp b c) < 0
            then compareSign (cmp a c) < 0 else True) \<and>
           (if 0 < compareSign (cmp a b) \<and> 0 < compareSign (cmp b c)
            then 0 < compareSign (cmp a c) else True)) xs) xs) xs"

text \<open>
  \<^verbatim>\<open>entries.sort(([, a], [, b]) => b - a)\<close>. On counts the comparator is consistent and the
  result is the stable sort. A value that is a string makes \<^verbatim>\<open>b - a\<close> \<open>NaN\<close>; against
  counts that differ the comparator is then not consistent, and the standard leaves the
  order to the engine. The engine is not part of the program and is a parameter:
  \<open>engine entries\<close> is the order it leaves the entries in. An engine only rearranges, so
  a parameter that returns other elements is disregarded.
\<close>

type_synonym engineOrder = "(string \<times> jsval) list \<Rightarrow> (string \<times> jsval) list"

definition sortEntries :: "engineOrder \<Rightarrow> (string \<times> jsval) list \<Rightarrow> (string \<times> jsval) list" where
  "sortEntries engine entries =
     (if consistentBy byCountDescending entries then sortBy byCountDescending entries
      else if mset (engine entries) = mset entries then engine entries
      else entries)"

subsection \<open>\<^verbatim>\<open>_generateReport\<close> (line 264)\<close>

definition countLicenses :: "PackageAnalysis list \<Rightarrow> jsobject" where
  "countLicenses pkgs =
     foldl (\<lambda>licenseDistribution pkg.
              increment licenseDistribution
                (if license pkg = [] then ''unknown'' else license pkg))
       [] pkgs"

definition countMaintainers :: "PackageAnalysis list \<Rightarrow> jsobject" where
  "countMaintainers pkgs =
     foldl (\<lambda>maintainerCount pkg.
              if author pkg \<noteq> [] \<and> author pkg \<noteq> ''unknown''
              then increment maintainerCount (author pkg) else maintainerCount)
       [] pkgs"

definition generateReport :: "engineOrder \<Rightarrow> PackageAnalyzer \<Rightarrow> AnalysisReport" where
  "generateReport engine this =
     \<lparr>totalPackages = length (analyzer_packages this),
      outdatedPackages = length (filter isOutdated (analyzer_packages this)),
      packagesWithSecurityIssues = 0,
      licenseDistribution = countLicenses (analyzer_packages this),
      topMaintainers =
        take 10 (sortEntries engine
                   (Object_entries (countMaintainers (analyzer_packages this)))),
      packages = analyzer_packages this\<rparr>"

text \<open>
  \<^verbatim>\<open>analyzePackageJson\<close> (line 65). \<open>manifest\<close> is the outcome of \<^verbatim>\<open>_readPackageJson\<close>: the
  parsed file, or the error it throws, which ends the run. The result is the report and
  the analyzer after the run.
\<close>

definition analyzePackageJson ::
  "engineOrder \<Rightarrow> registry \<Rightarrow> error + PackageJson \<Rightarrow> PackageAnalyzer
     \<Rightarrow> error + AnalysisReport \<times> PackageAnalyzer" where
  "analyzePackageJson engine fetch manifest this =
     (case manifest of
        Inl e \<Rightarrow> Inl e
      | Inr packageJson \<Rightarrow>
          (let allDeps = extractDependencies packageJson;
               this' = foldl (analyzeDep fetch) (this\<lparr>analyzer_packages := []\<rparr>) allDeps
           in Inr (generateReport engine this', this')))"

section \<open>Renderer\<close>

text \<open>A count in a template literal: its decimal digits.\<close>

fun showNat :: "nat \<Rightarrow> string" where
  "showNat n =
     (if n < 10 then [''0123456789'' ! n]
      else showNat (n div 10) @ [''0123456789'' ! (n mod 10)])"

definition showVal :: "jsval \<Rightarrow> string" where
  "showVal v = (case v of JNum n \<Rightarrow> showNat n | JStr s \<Rightarrow> s)"

text \<open>
  Division and multiplication of numbers. The only divisor in the program is
  \<^verbatim>\<open>report.totalPackages\<close>, so a zero divisor is \<open>+0\<close>.
\<close>

fun js_div :: "jsnum \<Rightarrow> jsnum \<Rightarrow> jsnum" where
  "js_div NaN _ = NaN"
| "js_div _ NaN = NaN"
| "js_div (Fin a) (Fin b) =
     (if b = 0 then (if a = 0 then NaN else if 0 < a then PosInf else NegInf)
      else toDouble (a / b))"
| "js_div (Fin a) _ = Fin 0"
| "js_div PosInf (Fin b) = (if b < 0 then NegInf else PosInf)"
| "js_div NegInf (Fin b) = (if b < 0 then PosInf else NegInf)"
| "js_div _ _ = NaN"

fun js_mul :: "jsnum \<Rightarrow> jsnum \<Rightarrow> jsnum" where
  "js_mul NaN _ = NaN"
| "js_mul _ NaN = NaN"
| "js_mul (Fin a) (Fin b) = toDouble (a * b)"
| "js_mul (Fin a) PosInf = (if a = 0 then NaN else if 0 < a then PosInf else NegInf)"
| "js_mul (Fin a) NegInf = (if a = 0 then NaN else if 0 < a then NegInf else PosInf)"
| "js_mul PosInf (Fin b) = (if b = 0 then NaN else if 0 < b then PosInf else NegInf)"
| "js_mul NegInf (Fin b) = (if b = 0 then NaN else if 0 < b then NegInf else PosInf)"
| "js_mul PosInf PosInf = PosInf"
| "js_mul NegInf NegInf = PosInf"
| "js_mul _ _ = NegInf"

text \<open>
  \<^verbatim>\<open>x.toFixed(1)\<close>: the integer \<open>n\<close> with \<open>n / 10\<close> nearest to \<open>x\<close>, the larger one on a tie,
  printed with one decimal. (From \<open>10\<^sup>2\<^sup>1\<close> on \<^verbatim>\<open>toFixed\<close> prints in exponent notation; a
  percentage of counts does not get there, and that branch is not modelled.)
\<close>

definition toFixed1 :: "jsnum \<Rightarrow> string" where
  "toFixed1 x =
     (case x of
        NaN \<Rightarrow> ''NaN''
      | PosInf \<Rightarrow> ''Infinity''
      | NegInf \<Rightarrow> ''-Infinity''
      | Fin r \<Rightarrow>
          (let n = nat \<lfloor>\<bar>r\<bar> * 10 + 1 / 2\<rfloor>
           in (if r < 0 then ''-'' else []) @ showNat (n div 10) @ ''.'' @ showNat (n mod 10)))"

text \<open>\<^verbatim>\<open>((count / report.totalPackages) * 100).toFixed(1)\<close> (lines 307 and 314).\<close>

definition percentage :: "jsval \<Rightarrow> nat \<Rightarrow> string" where
  "percentage cnt ofTotal =
     toFixed1 (js_mul (js_div (toNumber cnt) (toNumber (JNum ofTotal))) (Fin 100))"

definition showType :: "dependencyType \<Rightarrow> string" where
  "showType t =
     (case t of dependency \<Rightarrow> ''dependency'' | devDependency \<Rightarrow> ''devDependency''
      | peerDependency \<Rightarrow> ''peerDependency'')"

text \<open>
  The two icons of the last table are outside ASCII; they are given by the bytes that
  \<^verbatim>\<open>writeFileSync\<close> puts in the file (UTF-8 of U+26A0 U+FE0F and of U+2705).
\<close>

definition warningIcon :: string where
  "warningIcon = [CHR 0xE2, CHR 0x9A, CHR 0xA0, CHR 0xEF, CHR 0xB8, CHR 0x8F]"

definition checkIcon :: string where
  "checkIcon = [CHR 0xE2, CHR 0x9C, CHR 0x85]"

text \<open>The parts of the document, in the order \<^verbatim>\<open>generateReportFile\<close> (line 298) appends them.\<close>

definition summarySection :: "string \<Rightarrow> AnalysisReport \<Rightarrow> string" where
  "summarySection now report =
     ''# Package Dependency Analysis Report\<newline>\<newline>''
     @ ''Generated on: '' @ now @ ''\<newline>\<newline>''
     @ ''## Summary\<newline>\<newline>''
     @ ''- **Total Packages**: '' @ showNat (totalPackages report) @ ''\<newline>''
     @ ''- **Outdated Packages**: '' @ showNat (outdatedPackages report)
     @ '' ('' @ percentage (JNum (outdatedPackages report)) (totalPackages report)
     @ ''%)\<newline>\<newline>''"

definition licenseLine :: "AnalysisReport \<Rightarrow> string \<times> jsval \<Rightarrow> string" where
  "licenseLine report entry =
     ''- **'' @ fst entry @ ''**: '' @ showVal (snd entry) @ '' packages (''
     @ percentage (snd entry) (totalPackages report) @ ''%)\<newline>''"

definition licenseSection :: "engineOrder \<Rightarrow> AnalysisReport \<Rightarrow> string" where
  "licenseSection engine report =
     ''## License Distribution\<newline>\<newline>''
     @ concat (map (licenseLine report)
                 (sortEntries engine (Object_entries (licenseDistribution report))))"

definition maintainerLine :: "string \<times> jsval \<Rightarrow> string" where
  "maintainerLine maintainer =
     ''- **'' @ fst maintainer @ ''**: '' @ showVal (snd maintainer) @ '' packages\<newline>''"

definition maintainersSection :: "AnalysisReport \<Rightarrow> string" where
  "maintainersSection report =
     (if 0 < length (topMaintainers report)
      then ''\<newline>## Top Package Authors\<newline>\<newline>''
           @ concat (map maintainerLine (topMaintainers report))
      else [])"

definition outdatedRow :: "PackageAnalysis \<Rightarrow> string" where
  "outdatedRow pkg =
     ''| '' @ name pkg @ '' | '' @ installedVersion pkg @ '' | '' @ latestVersion pkg
     @ '' | '' @ showType (dependencyType pkg) @ '' |\<newline>''"

definition outdatedSection :: "PackageAnalysis list \<Rightarrow> string" where
  "outdatedSection outdatedPkgs =
     (if 0 < length outdatedPkgs
      then ''\<newline>## Outdated Packages\<newline>\<newline>''
           @ ''| Package | Installed | Latest | Type |\<newline>''
           @ ''|---------|-----------|--------|----- |\<newline>''
           @ concat (map outdatedRow outdatedPkgs)
      else [])"

definition packageRow :: "PackageAnalysis \<Rightarrow> string" where
  "packageRow pkg =
     (let outdatedIcon = (if isOutdated pkg then warningIcon else checkIcon);
          shortAuthor = (if 20 < length (author pkg) then take 20 (author pkg) @ ''...''
                         else author pkg)
      in ''| '' @ name pkg @ '' | '' @ installedVersion pkg @ '' | '' @ latestVersion pkg
         @ '' | '' @ license pkg @ '' | '' @ shortAuthor @ '' | '' @ outdatedIcon
         @ '' |\<newline>'')"

definition allPackagesSection :: "PackageAnalysis list \<Rightarrow> string" where
  "allPackagesSection sortedPkgs =
     ''\<newline>## All Packages\<newline>\<newline>''
     @ ''| Package | Version | Latest | License | Author | Outdated |\<newline>''
     @ ''|---------|---------|--------|---------|---------|---------|\<newline>''
     @ concat (map packageRow sortedPkgs)"

text \<open>
  The comparator \<^verbatim>\<open>(a, b) => a.name.localeCompare(b.name)\<close>. The collation of the host is
  not part of the program and is a parameter: \<open>localeCompare a b\<close> is negative, zero or
  positive.
\<close>

definition byName ::
  "(string \<Rightarrow> string \<Rightarrow> int) \<Rightarrow> PackageAnalysis \<Rightarrow> PackageAnalysis \<Rightarrow> jsnum" where
  "byName localeCompare a b = Fin (of_int (localeCompare (name a) (name b)))"

text \<open>
  \<^verbatim>\<open>generateReportFile\<close> (line 298). \<^verbatim>\<open>report.packages.sort(...)\<close> sorts the array of the
  report itself, so the function returns the report as it is left behind, next to the
  text written to the file. \<open>now\<close> is \<^verbatim>\<open>new Date().toISOString()\<close>.
\<close>

definition generateReportFile ::
  "engineOrder \<Rightarrow> (string \<Rightarrow> string \<Rightarrow> int) \<Rightarrow> string \<Rightarrow> AnalysisReport
     \<Rightarrow> AnalysisReport \<times> string" where
  "generateReportFile engine localeCompare now report =
     (let outdatedPkgs = filter isOutdated (packages report);
          sortedPkgs = sortBy (byName localeCompare) (packages report)
      in (report\<lparr>packages := sortedPkgs\<rparr>,
          summarySection now report
          @ licenseSection engine report
          @ maintainersSection report
          @ outdatedSection outdatedPkgs
          @ allPackagesSection sortedPkgs))"

section \<open>Notions used in the statements\<close>

text \<open>
  The entry that the loop appends for a dependency when its request is the \<open>n\<close>-th of the
  run: the analysis when the fetch succeeds, the minimal entry when it fails.
\<close>

definition entryOf :: "registry \<Rightarrow> nat \<Rightarrow> Dep \<Rightarrow> PackageAnalysis" where
  "entryOf fetch n dep =
     (case fst (analyzePackage fetch \<lparr>analyzer_packages = [], requestCount = n - 1\<rparr>
                  (dep_name dep) (dep_version dep) (dep_type dep)) of
        Inl e \<Rightarrow> failedEntry dep
      | Inr analysis \<Rightarrow> analysis)"

text \<open>
  The scenario of the specification: three development dependencies and the registry's
  answers for them; a second registry that fails for one of them; an engine order, which
  the examples do not consult, their comparators being consistent; a fresh analyzer.
\<close>

definition exampleManifest :: PackageJson where
  "exampleManifest =
     \<lparr>dependencies = None,
      devDependencies =
        Some [(''@types/node'', ''^20.0.0''), (''tsx'', ''^4.0.0''), (''typescript'', ''^5.0.0'')],
      peerDependencies = None\<rparr>"

definition exampleInfo :: "string \<Rightarrow> string \<Rightarrow> string \<Rightarrow> string option \<Rightarrow> NpmPackageInfo" where
  "exampleInfo n v l a =
     \<lparr>npm_name = n, npm_version = v, npm_description = None, npm_homepage = None,
      npm_repository = None, npm_license = Some l, npm_author = map_option Inl a,
      npm_keywords = None, npm_maintainers = None, npm_time = None\<rparr>"

definition exampleRegistry :: registry where
  "exampleRegistry n pkgName =
     (if pkgName = ''@types/node'' then Inr (exampleInfo pkgName ''24.3.0'' ''MIT'' None)
      else if pkgName = ''tsx'' then Inr (exampleInfo pkgName ''4.20.5'' ''MIT'' (Some ''Hiroki Osame''))
      else if pkgName = ''typescript''
      then Inr (exampleInfo pkgName ''5.9.2'' ''Apache-2.0'' (Some ''Microsoft Corp.''))
      else Inl (FetchError pkgName))"

definition failingRegistry :: registry where
  "failingRegistry n pkgName =
     (if pkgName = ''tsx'' then Inl (FetchError pkgName) else exampleRegistry n pkgName)"

definition exampleEngine :: engineOrder where
  "exampleEngine entries = rev entries"

definition newAnalyzer :: PackageAnalyzer where
  "newAnalyzer = \<lparr>analyzer_packages = [], requestCount = 0\<rparr>"

text \<open>
  What the sort needs of the collation, on the names at hand: if \<open>a\<close> sorts after \<open>b\<close> then
  \<open>b\<close> sorts before \<open>a\<close>, and "not after" is transitive.
\<close>

definition consistentOn :: "(string \<Rightarrow> string \<Rightarrow> int) \<Rightarrow> string list \<Rightarrow> bool" where
  "consistentOn cmp xs =
     list_all (\<lambda>a. list_all (\<lambda>b.
         (if 0 < cmp a b then cmp b a < 0 else True)
         \<and> list_all (\<lambda>c. if cmp a b \<le> 0 \<and> cmp b c \<le> 0 then cmp a c \<le> 0 else True) xs) xs) xs"

text \<open>A package list in the order of the collation.\<close>

definition nameOrdered :: "(string \<Rightarrow> string \<Rightarrow> int) \<Rightarrow> PackageAnalysis list \<Rightarrow> bool" where
  "nameOrdered cmp pkgs = sorted_wrt (\<lambda>a b. cmp (name a) (name b) \<le> 0) pkgs"

text \<open>A collation for the examples: code units compared position by position.\<close>

fun codeUnitCompare :: "string \<Rightarrow> string \<Rightarrow> int" where
  "codeUnitCompare [] [] = 0"
| "codeUnitCompare [] (y # ys) = - 1"
| "codeUnitCompare (x # xs) [] = 1"
| "codeUnitCompare (x # xs) (y # ys) =
     (if (of_char x :: nat) < of_char y then - 1
      else if (of_char y :: nat) < of_char x then 1
      else codeUnitCompare xs ys)"

text \<open>An analyzer that has collected three packages, out of alphabetical order.\<close>

definition unsortedAnalyzer :: PackageAnalyzer where
  "unsortedAnalyzer =
     \<lparr>analyzer_packages =
        [(failedEntry \<lparr>dep_name = ''tsx'', dep_version = ''^4.0.0'', dep_type = devDependency\<rparr>)
           \<lparr>latestVersion := ''4.20.5'', isOutdated := True\<rparr>,
         failedEntry \<lparr>dep_name = ''lodash'', dep_version = ''4.17.21'', dep_type = dependency\<rparr>,
         (failedEntry \<lparr>dep_name = ''@types/node'', dep_version = ''^20.0.0'',
                       dep_type = devDependency\<rparr>)
           \<lparr>latestVersion := ''24.3.0'', isOutdated := True\<rparr>],
      requestCount = 3\<rparr>"

text \<open>
  The tallies as the specification describes them: the keys in the order of their first
  occurrence, each with the number of its occurrences. The authors that are counted are
  those that are not empty and not \<^verbatim>\<open>unknown\<close>; the license of a package is its key, an
  unset one being \<^verbatim>\<open>unknown\<close>.
\<close>

definition firstSeen :: "'a list \<Rightarrow> 'a list" where
  "firstSeen xs = rev (remdups (rev xs))"

definition spec_tally :: "string list \<Rightarrow> (string \<times> nat) list" where
  "spec_tally xs = map (\<lambda>a. (a, count_list xs a)) (firstSeen xs)"

definition countedAuthors :: "PackageAnalysis list \<Rightarrow> string list" where
  "countedAuthors pkgs = filter (\<lambda>a. a \<noteq> [] \<and> a \<noteq> ''unknown'') (map author pkgs)"

definition licenseKeys :: "PackageAnalysis list \<Rightarrow> string list" where
  "licenseKeys pkgs = map (\<lambda>pkg. if license pkg = [] then ''unknown'' else license pkg) pkgs"

text \<open>A count as the value the object stores.\<close>

definition asCount :: "string \<times> nat \<Rightarrow> string \<times> jsval" where
  "asCount e = (fst e, JNum (snd e))"

text \<open>Keys that meet no member of \<^verbatim>\<open>Object.prototype\<close>.\<close>

definition ordinaryKeys :: "string list \<Rightarrow> bool" where
  "ordinaryKeys ks = list_all (\<lambda>k. inheritedText k = None) ks"

text \<open>The count a tally value stands for, and the key of the ranking: more packages first.\<close>

definition countOf :: "jsval \<Rightarrow> nat" where
  "countOf v = (case v of JNum n \<Rightarrow> n | JStr s \<Rightarrow> 0)"

definition byCountKey :: "string \<times> nat \<Rightarrow> int" where
  "byCountKey e = - int (snd e)"

text \<open>
  Analyzers for the examples of the aggregator: entries that differ in name and author;
  two authors with one package each; five packages of three counted authors; one
  package whose license is \<^verbatim>\<open>__proto__\<close>.
\<close>

definition authored :: "string \<Rightarrow> string \<Rightarrow> PackageAnalysis" where
  "authored n a =
     (failedEntry \<lparr>dep_name = n, dep_version = ''1.0.0'', dep_type = dependency\<rparr>)
       \<lparr>latestVersion := ''1.0.0'', license := ''MIT'', author := a\<rparr>"

definition tiedAnalyzer :: PackageAnalyzer where
  "tiedAnalyzer =
     \<lparr>analyzer_packages = [authored ''left-pad'' ''b'', authored ''is-odd'' ''7''],
      requestCount = 2\<rparr>"

definition rankedAnalyzer :: PackageAnalyzer where
  "rankedAnalyzer =
     \<lparr>analyzer_packages =
        [authored ''chalk'' ''amy'', authored ''debug'' ''unknown'', authored ''ms'' ''zoe'',
         authored ''is-odd'' ''7'', authored ''ws'' ''zoe''],
      requestCount = 5\<rparr>"

definition protoAnalyzer :: PackageAnalyzer where
  "protoAnalyzer =
     \<lparr>analyzer_packages = [(authored ''left-pad'' ''amy'')\<lparr>license := ''__proto__''\<rparr>],
      requestCount = 1\<rparr>"

section \<open>Properties of the version comparator\<close>

subsection \<open>\<^verbatim>\<open>Number\<close> on a string of digits\<close>

lemma digitOf_digit: "isDigit c \<Longrightarrow> digitOf 10 c = Some (of_char c - 48)"
  by (auto simp: isDigit_def digitOf_def Let_def)

lemma digitsVal_digits:
  "list_all isDigit s \<Longrightarrow> digitsVal 10 acc s = Some (foldl (\<lambda>acc c. acc * 10 + (of_char c - 48)) acc s)"
  by (induction s arbitrary: acc) (auto simp: digitOf_digit)

lemma natLiteral_digits: "isDecimalInteger s \<Longrightarrow> natLiteral 10 s = Some (decimalValue s)"
  by (simp add: natLiteral_def isDecimalInteger_def decimalValue_def digitsVal_digits)

lemma digit_not_ws: "isDigit c \<Longrightarrow> \<not> isWhiteSpace c"
  by (auto simp: isDigit_def isWhiteSpace_def)

lemma dropWhile_hd: "xs \<noteq> [] \<Longrightarrow> \<not> P (hd xs) \<Longrightarrow> dropWhile P xs = xs"
  by (cases xs) auto

lemma trim_digits: "isDecimalInteger s \<Longrightarrow> trim s = s"
proof -
  assume a: "isDecimalInteger s"
  then have ne: "s \<noteq> []" and all: "\<forall>c \<in> set s. isDigit c"
    by (auto simp: isDecimalInteger_def list_all_iff)
  have "\<not> isWhiteSpace (hd s)" using ne all by (simp add: digit_not_ws)
  then have 1: "dropWhile isWhiteSpace s = s" using ne by (rule dropWhile_hd[rotated])
  have "\<not> isWhiteSpace (hd (rev s))" using ne all by (simp add: digit_not_ws hd_rev)
  then have 2: "dropWhile isWhiteSpace (rev s) = rev s" using ne by (intro dropWhile_hd) auto
  show ?thesis unfolding trim_def 1 2 by simp
qed

lemma decimalValue_nonneg_aux:
  "list_all isDigit s \<Longrightarrow> 0 \<le> acc \<Longrightarrow> 0 \<le> foldl (\<lambda>acc c. acc * 10 + (of_char c - 48)) (acc::int) s"
  by (induction s arbitrary: acc) (auto simp: isDigit_def)

lemma decimalValue_nonneg: "isDecimalInteger s \<Longrightarrow> 0 \<le> decimalValue s"
  by (simp add: decimalValue_def isDecimalInteger_def decimalValue_nonneg_aux)

lemma digit_not_letter: "isDigit c \<Longrightarrow> c \<notin> set ''xXoObB+-.eEI''"
  by (auto simp: isDigit_def)

lemma nonDecimal_digits: "isDecimalInteger s \<Longrightarrow> nonDecimalValue s = None"
proof (cases s)
  case Nil
  then show ?thesis by (simp add: nonDecimalValue_def)
next
  case (Cons z t)
  assume a: "isDecimalInteger s"
  show ?thesis
  proof (cases t)
    case Nil
    then show ?thesis using Cons by (simp add: nonDecimalValue_def)
  next
    case (Cons p ds)
    with a \<open>s = z # t\<close> have "isDigit p" by (simp add: isDecimalInteger_def)
    from digit_not_letter[OF this] show ?thesis using Cons \<open>s = z # t\<close>
      by (simp add: nonDecimalValue_def)
  qed
qed

lemma unsignedDecimal_digits: "isDecimalInteger s \<Longrightarrow> unsignedDecimal s = Some (decimalValue s, 0)"
proof -
  assume a: "isDecimalInteger s"
  then have "takeWhile isDigit s = s" "dropWhile isDigit s = []"
    by (auto simp: isDecimalInteger_def list_all_iff)
  then show ?thesis unfolding unsignedDecimal_def Let_def
    using a by (simp add: natLiteral_digits isDecimalInteger_def del: takeWhile_eq_all_conv dropWhile_eq_Nil_conv)
qed

lemma Number_digits: "isDecimalInteger s \<Longrightarrow> Number s = intToDouble (decimalValue s)"
proof -
  assume a: "isDecimalInteger s"
  then have ne: "s \<noteq> []" and c: "isDigit (hd s)"
    by (auto simp: isDecimalInteger_def list_all_iff)
  from digit_not_letter[OF c] have pm: "hd s \<noteq> CHR ''+''" "hd s \<noteq> CHR ''-''" "hd s \<noteq> CHR ''I''"
    by auto
  then have inf: "s \<noteq> ''Infinity''" by auto
  have u: "unsignedDecimalValue s = intToDouble (decimalValue s)"
    using inf by (simp add: unsignedDecimalValue_def unsignedDecimal_digits[OF a])
  show ?thesis unfolding Number_def Let_def trim_digits[OF a] nonDecimal_digits[OF a]
    using ne pm u by (cases s) auto
qed

subsection \<open>The loop against the component-wise comparison\<close>

lemma js_less_irrefl: "\<not> js_less a a"
  by (cases a) auto

lemma spec_compare_drop:
  "spec_compare (drop i xs) (drop i ys) =
     (if i < max (length xs) (length ys) then
        (if nthOr0 xs i < nthOr0 ys i then True
         else if nthOr0 ys i < nthOr0 xs i then False
         else spec_compare (drop (Suc i) xs) (drop (Suc i) ys))
      else False)"
proof (cases "i < length xs"; cases "i < length ys")
  assume "i < length xs" "i < length ys"
  then show ?thesis
    by (simp add: nthOr0_def Cons_nth_drop_Suc[symmetric] less_max_iff_disj)
next
  assume "i < length xs" "\<not> i < length ys"
  then show ?thesis
    by (simp add: nthOr0_def Cons_nth_drop_Suc[symmetric] less_max_iff_disj)
next
  assume "\<not> i < length xs" "i < length ys"
  then show ?thesis
    by (simp add: nthOr0_def Cons_nth_drop_Suc[symmetric] less_max_iff_disj)
next
  assume "\<not> i < length xs" "\<not> i < length ys"
  then show ?thesis by (simp add: less_max_iff_disj)
qed

lemma partOrZero_Fin:
  "partOrZero (map (\<lambda>n. Fin (of_int n)) xs) i = Fin (of_int (nthOr0 xs i))"
  by (simp add: partOrZero_def nthOr0_def)

lemma compareFrom_spec:
  "compareFrom (map (\<lambda>n. Fin (of_int n)) xs) (map (\<lambda>n. Fin (of_int n)) ys) i
     = spec_compare (drop i xs) (drop i ys)"
proof (induction "max (length xs) (length ys) - i" arbitrary: i)
  case 0
  then show ?case
    by (subst compareFrom.simps) (simp add: less_max_iff_disj)
next
  case (Suc k)
  then have lt: "i < max (length xs) (length ys)" and k: "k = max (length xs) (length ys) - Suc i"
    by auto
  show ?case
    by (subst compareFrom.simps, subst spec_compare_drop)
       (simp add: lt partOrZero_Fin js_greater_def Suc.hyps(1)[OF k] Let_def)
qed

lemma compareFrom_equal:
  "(\<And>j. partOrZero ip j = partOrZero lp j) \<Longrightarrow> \<not> compareFrom ip lp i"
proof (induction "max (length ip) (length lp) - i" arbitrary: i)
  case 0
  then show ?case by (subst compareFrom.simps) (simp add: less_max_iff_disj)
next
  case (Suc k)
  then have k: "k = max (length ip) (length lp) - Suc i" by auto
  show ?case
    by (subst compareFrom.simps)
       (simp add: Suc.prems js_greater_def js_less_irrefl Let_def Suc.hyps(1)[OF k Suc.prems])
qed

subsection \<open>Claims about the version comparator\<close>

lemma toDouble_int: "\<bar>n\<bar> \<le> 9007199254740992 \<Longrightarrow> toDouble (of_int n) = Fin (of_int n)"
proof -
  assume "\<bar>n\<bar> \<le> 9007199254740992"
  then have "\<bar>rat_of_int n\<bar> \<le> 9007199254740992"
    by (metis of_int_abs of_int_le_iff of_int_numeral)
  then show ?thesis by (simp add: toDouble_def isSafeInteger_def)
qed

lemma Number_exact:
  "isDecimalInteger c \<Longrightarrow> decimalValue c \<le> 9007199254740992 \<Longrightarrow>
     Number c = Fin (of_int (decimalValue c))"
  using decimalValue_nonneg[of c] by (simp add: Number_digits intToDouble_def toDouble_int)

lemma map_Number_exact:
  "isExactVersion v \<Longrightarrow>
     map Number (split v (CHR ''.'')) = map (\<lambda>n. Fin (of_int n)) (componentValues v)"
  by (simp add: isExactVersion_def componentValues_def list_all_iff Number_exact)

text \<open>
  Claim C1, as amended. When every component of both versions is a decimal integer that a
  double holds exactly (at most \<open>2\<^sup>5\<^sup>3\<close>), \<^verbatim>\<open>_isVersionOutdated\<close> is the component-wise
  integer comparison of the specification: split on the dot, compare left to right with
  missing components as \<open>0\<close>, true at the first position where installed is less, false
  at the first where it is greater, false when all are equal.
\<close>

theorem isVersionOutdated_exact:
  assumes "isExactVersion installed" and "isExactVersion latest"
  shows "isVersionOutdated installed latest = spec_isOutdated installed latest"
  using assms
  by (simp add: isVersionOutdated_def spec_isOutdated_def map_Number_exact compareFrom_spec)

theorem isVersionOutdated_exact_witness:
  "isExactVersion ''1.9.0'' \<and> isExactVersion ''1.10.0'' \<and> spec_isOutdated ''1.9.0'' ''1.10.0''
   \<and> isVersionOutdated ''1.9.0'' ''1.10.0''"
proof -
  have 1: "isExactVersion ''1.9.0''" by code_simp
  have 2: "isExactVersion ''1.10.0''" by code_simp
  have 3: "spec_isOutdated ''1.9.0'' ''1.10.0''" by code_simp
  from isVersionOutdated_exact[OF 1 2] 1 2 3 show ?thesis by simp
qed

text \<open>
  Claim C1 as stated, for every pair of version strings, fails on integers that a double
  cannot hold: \<^verbatim>\<open>Number("9007199254740993")\<close> is \<open>9007199254740992\<close>, so the two versions
  below compare equal although the installed integer is the smaller one.
\<close>

theorem isVersionOutdated_large_counterexample:
  "isNumericVersion ''9007199254740992'' \<and> isNumericVersion ''9007199254740993''
   \<and> spec_isOutdated ''9007199254740992'' ''9007199254740993''
   \<and> \<not> isVersionOutdated ''9007199254740992'' ''9007199254740993''"
  by code_simp

text \<open>
  Claim C2 at a non-numeric component. The wildcard range \<^verbatim>\<open>*\<close> is not a number,
  \<^verbatim>\<open>Number("*")\<close> is \<open>NaN\<close> and nothing throws; \<^verbatim>\<open>NaN || 0\<close> is \<open>0\<close>, and \<open>0 < 1\<close> makes the
  package outdated, where the claim says the result is false.
\<close>

theorem isVersionOutdated_wildcard:
  "Number ''*'' = NaN \<and> isVersionOutdated (cleanVersion ''*'') ''1.0.0''"
  by code_simp

lemma padTo_nth: "i < n \<Longrightarrow> length xs \<le> n \<Longrightarrow> padTo n xs ! i = nthOr0 xs i"
  by (simp add: padTo_def nthOr0_def nth_append)

lemma padded_equal_nth:
  assumes "padTo (max (length xs) (length ys)) xs = padTo (max (length xs) (length ys)) ys"
  shows "nthOr0 xs i = nthOr0 ys i"
proof (cases "i < max (length xs) (length ys)")
  case True
  then show ?thesis using assms padTo_nth[of i "max (length xs) (length ys)" xs]
      padTo_nth[of i "max (length xs) (length ys)" ys] by simp
next
  case False
  then show ?thesis by (simp add: nthOr0_def less_max_iff_disj)
qed

lemma partOrZero_intToDouble:
  "partOrZero (map intToDouble xs) i =
     (if truthy (intToDouble (nthOr0 xs i)) then intToDouble (nthOr0 xs i) else Fin 0)"
  by (simp add: partOrZero_def nthOr0_def intToDouble_def toDouble_def isSafeInteger_def)

lemma map_Number_numeric:
  "isNumericVersion v \<Longrightarrow> map Number (split v (CHR ''.'')) = map intToDouble (componentValues v)"
  by (simp add: isNumericVersion_def componentValues_def list_all_iff Number_digits)

lemma isVersionOutdated_same: "\<not> isVersionOutdated v v"
  unfolding isVersionOutdated_def Let_def by (rule compareFrom_equal) (rule refl)

lemma cleanVersion_op: "isRangeOp c \<Longrightarrow> cleanVersion (c # v) = trim v"
  by (simp add: cleanVersion_def)

lemma cleanVersion_bare: "v = [] \<or> \<not> isRangeOp (hd v) \<Longrightarrow> cleanVersion v = trim v"
  by (cases v) (auto simp: cleanVersion_def)

subsection \<open>White space around a version\<close>

text \<open>
  \<^verbatim>\<open>Number\<close> trims each component, and white space holds no dot, so white space around
  a version string does not change the comparison.
\<close>

lemma Number_cong_trim: "trim a = trim b \<Longrightarrow> Number a = Number b"
  by (simp add: Number_def)

lemma trim_leading:
  assumes "\<forall>c\<in>set w. isWhiteSpace c"
  shows "trim (w @ x) = trim x"
  using assms by (simp add: trim_def dropWhile_append2)

lemma trim_trailing:
  assumes w: "\<forall>c\<in>set w. isWhiteSpace c"
  shows "trim (x @ w) = trim x"
proof (cases "\<forall>c\<in>set x. isWhiteSpace c")
  case True
  with w have "dropWhile isWhiteSpace (x @ w) = []" "dropWhile isWhiteSpace x = []"
    by auto
  then show ?thesis by (simp only: trim_def)
next
  case False
  then obtain c where c: "c \<in> set x" "\<not> isWhiteSpace c" by blast
  then have "dropWhile isWhiteSpace (x @ w) = dropWhile isWhiteSpace x @ w"
    by (rule dropWhile_append1)
  moreover have "dropWhile isWhiteSpace (rev w @ rev (dropWhile isWhiteSpace x))
                   = dropWhile isWhiteSpace (rev (dropWhile isWhiteSpace x))"
    using w by (intro dropWhile_append2) simp
  ultimately show ?thesis by (simp add: trim_def)
qed

lemma trim_parts:
  "\<exists>w1 w2. v = w1 @ trim v @ w2 \<and> (\<forall>c\<in>set w1. isWhiteSpace c) \<and> (\<forall>c\<in>set w2. isWhiteSpace c)"
proof -
  let ?u = "dropWhile isWhiteSpace v"
  have 1: "v = takeWhile isWhiteSpace v @ ?u" by simp
  have "rev (takeWhile isWhiteSpace (rev ?u) @ dropWhile isWhiteSpace (rev ?u)) = rev (rev ?u)"
    by (simp only: takeWhile_dropWhile_id)
  then have 2: "?u = trim v @ rev (takeWhile isWhiteSpace (rev ?u))"
    by (simp only: rev_append rev_rev_ident trim_def)
  have a: "\<forall>c\<in>set (takeWhile isWhiteSpace v). isWhiteSpace c"
    by (auto dest: set_takeWhileD)
  have b: "\<forall>c\<in>set (rev (takeWhile isWhiteSpace (rev ?u))). isWhiteSpace c"
    by (auto dest: set_takeWhileD)
  from 1 2 have "v = takeWhile isWhiteSpace v @ trim v @ rev (takeWhile isWhiteSpace (rev ?u))"
    by metis
  with a b show ?thesis by blast
qed

lemma split_acc_nonempty: "split_acc sep cur rest \<noteq> []"
  by (induction rest arbitrary: cur) auto

lemma split_acc_prefix:
  "split_acc sep (a @ cur) rest = (a @ hd (split_acc sep cur rest)) # tl (split_acc sep cur rest)"
  by (induction rest arbitrary: cur) auto

lemma split_acc_skip:
  "sep \<notin> set w \<Longrightarrow> split_acc sep cur (w @ rest) = split_acc sep (cur @ w) rest"
  by (induction w arbitrary: cur) auto

lemma split_acc_suffix:
  "sep \<notin> set w \<Longrightarrow>
     split_acc sep cur (rest @ w)
       = butlast (split_acc sep cur rest) @ [last (split_acc sep cur rest) @ w]"
proof (induction rest arbitrary: cur)
  case Nil
  then show ?case using split_acc_skip[of sep w cur "[]"] by simp
next
  case (Cons c rest)
  then show ?case by (simp add: split_acc_nonempty)
qed

lemma dot_not_ws: "\<not> isWhiteSpace (CHR ''.'')"
  by (simp add: isWhiteSpace_def)

lemma map_Number_leading:
  assumes "\<forall>c\<in>set w. isWhiteSpace c"
  shows "map Number (split (w @ r) (CHR ''.'')) = map Number (split r (CHR ''.''))"
proof -
  have nd: "CHR ''.'' \<notin> set w" using assms dot_not_ws by blast
  let ?L = "split_acc (CHR ''.'') [] r"
  have "split (w @ r) (CHR ''.'') = split_acc (CHR ''.'') ([] @ w) r"
    unfolding split_def by (rule split_acc_skip[OF nd])
  also have "\<dots> = split_acc (CHR ''.'') (w @ []) r" by simp
  also have "\<dots> = (w @ hd ?L) # tl ?L" by (rule split_acc_prefix)
  finally have "map Number (split (w @ r) (CHR ''.'')) = Number (w @ hd ?L) # map Number (tl ?L)"
    by simp
  also have "Number (w @ hd ?L) = Number (hd ?L)"
    by (rule Number_cong_trim) (rule trim_leading[OF assms])
  also have "Number (hd ?L) # map Number (tl ?L) = map Number ?L"
    using split_acc_nonempty[of "CHR ''.''" "[]" r] by (cases ?L) auto
  finally show ?thesis by (simp add: split_def)
qed

lemma map_Number_trailing:
  assumes "\<forall>c\<in>set w. isWhiteSpace c"
  shows "map Number (split (r @ w) (CHR ''.'')) = map Number (split r (CHR ''.''))"
proof -
  have nd: "CHR ''.'' \<notin> set w" using assms dot_not_ws by blast
  let ?L = "split_acc (CHR ''.'') [] r"
  have ne: "?L \<noteq> []" by (rule split_acc_nonempty)
  have "map Number (split (r @ w) (CHR ''.'')) = map Number (butlast ?L) @ [Number (last ?L @ w)]"
    by (simp add: split_def split_acc_suffix[OF nd])
  also have "Number (last ?L @ w) = Number (last ?L)"
    by (rule Number_cong_trim) (rule trim_trailing[OF assms])
  also have "map Number (butlast ?L) @ [Number (last ?L)] = map Number (butlast ?L @ [last ?L])"
    by simp
  also have "butlast ?L @ [last ?L] = ?L" using ne by simp
  finally show ?thesis by (simp add: split_def)
qed

lemma isVersionOutdated_trim: "isVersionOutdated (trim v) latest = isVersionOutdated v latest"
proof -
  obtain w1 w2 where v: "v = w1 @ trim v @ w2"
    and w1: "\<forall>c\<in>set w1. isWhiteSpace c" and w2: "\<forall>c\<in>set w2. isWhiteSpace c"
    using trim_parts by blast
  have "map Number (split (w1 @ trim v @ w2) (CHR ''.'')) = map Number (split (trim v @ w2) (CHR ''.''))"
    by (rule map_Number_leading[OF w1])
  also have "\<dots> = map Number (split (trim v) (CHR ''.''))"
    by (rule map_Number_trailing[OF w2])
  finally have "map Number (split v (CHR ''.'')) = map Number (split (trim v) (CHR ''.''))"
    using v by simp
  then show ?thesis by (simp add: isVersionOutdated_def)
qed

text \<open>
  Claim C7. Of an installed range that begins with exactly one of the characters
  \<^verbatim>\<open>^ ~ > = <\<close> (the rest does not begin with one), \<^verbatim>\<open>_cleanVersion\<close> removes that
  character and keeps the rest, up to surrounding white space. The comparison of the
  cleaned range is the comparison of the rest as it stands, and it is the comparison that
  the bare version gets: \<^verbatim>\<open>_analyzePackage\<close> sets the same \<^verbatim>\<open>isOutdated\<close> for the prefixed and
  for the bare version.
\<close>

theorem cleanVersion_strips_one_operator:
  assumes "isRangeOp c" and "v = [] \<or> \<not> isRangeOp (hd v)"
  shows "cleanVersion (c # v) = trim v
       \<and> isVersionOutdated (cleanVersion (c # v)) latest = isVersionOutdated v latest
       \<and> isVersionOutdated (cleanVersion (c # v)) latest = isVersionOutdated (cleanVersion v) latest
       \<and> map_sum id isOutdated (fst (analyzePackage fetch this pkgName (c # v) t))
           = map_sum id isOutdated (fst (analyzePackage fetch this pkgName v t))"
proof -
  have 1: "cleanVersion (c # v) = trim v" using assms(1) by (rule cleanVersion_op)
  have 2: "cleanVersion v = trim v" using assms(2) by (rule cleanVersion_bare)
  have 3: "isVersionOutdated (trim v) latest = isVersionOutdated v latest"
    by (rule isVersionOutdated_trim)
  show ?thesis
    by (simp add: 1 2 3 analyzePackage_def Let_def split: sum.splits)
qed

text \<open>
  The example of the claim, \<^verbatim>\<open>^4.0.0\<close> against \<^verbatim>\<open>4.20.5\<close>, is outdated. \<^verbatim>\<open>^5.0.0\<close> against
  \<^verbatim>\<open>4.0.0\<close> is not, as \<^verbatim>\<open>5.0.0\<close> is not, whereas the range compared with its operator left
  in place would be: \<^verbatim>\<open>Number("^5")\<close> is \<open>NaN\<close> and counts as \<open>0\<close>.
\<close>

theorem cleanVersion_strips_one_operator_witness:
  "isRangeOp (CHR ''^'') \<and> (''4.0.0'' = [] \<or> \<not> isRangeOp (hd ''4.0.0''))
   \<and> (''5.0.0'' = [] \<or> \<not> isRangeOp (hd ''5.0.0''))
   \<and> cleanVersion ''^4.0.0'' = ''4.0.0''
   \<and> isVersionOutdated (cleanVersion ''^4.0.0'') ''4.20.5''
   \<and> isVersionOutdated ''4.0.0'' ''4.20.5''
   \<and> cleanVersion ''^5.0.0'' = ''5.0.0''
   \<and> \<not> isVersionOutdated (cleanVersion ''^5.0.0'') ''4.0.0''
   \<and> \<not> isVersionOutdated ''5.0.0'' ''4.0.0''
   \<and> isVersionOutdated ''^5.0.0'' ''4.0.0''"
proof -
  have 1: "isRangeOp (CHR ''^'')" by (simp add: isRangeOp_def)
  have 2: "''4.0.0'' = [] \<or> \<not> isRangeOp (hd ''4.0.0'')" by (simp add: isRangeOp_def)
  have 3: "''5.0.0'' = [] \<or> \<not> isRangeOp (hd ''5.0.0'')" by (simp add: isRangeOp_def)
  have 4: "isVersionOutdated ''4.0.0'' ''4.20.5''" by code_simp
  have 5: "\<not> isVersionOutdated ''5.0.0'' ''4.0.0''" by code_simp
  have 6: "isVersionOutdated ''^5.0.0'' ''4.0.0''" by code_simp
  have 7: "trim ''4.0.0'' = ''4.0.0''" "trim ''5.0.0'' = ''5.0.0''" by code_simp+
  from cleanVersion_strips_one_operator[OF 1 2, of "''4.20.5''"]
    cleanVersion_strips_one_operator[OF 1 3, of "''4.0.0''"] 1 2 3 4 5 6 7
  show ?thesis by simp
qed

text \<open>
  Claim C8. Two numeric versions that are equal component-wise, missing trailing components
  counting as \<open>0\<close>, are not outdated with respect to each other. No bound on the size of
  the components is needed: equal integers round to equal doubles.
\<close>

theorem isVersionOutdated_componentwiseEqual:
  assumes "isNumericVersion a" and "isNumericVersion b" and "componentwiseEqual a b"
  shows "\<not> isVersionOutdated a b"
proof -
  from assms(3) have "\<And>i. nthOr0 (componentValues a) i = nthOr0 (componentValues b) i"
    unfolding componentwiseEqual_def Let_def by (rule padded_equal_nth)
  then have "\<And>j. partOrZero (map intToDouble (componentValues a)) j
                = partOrZero (map intToDouble (componentValues b)) j"
    by (simp only: partOrZero_intToDouble)
  then have "\<not> compareFrom (map intToDouble (componentValues a))
                (map intToDouble (componentValues b)) 0"
    by (rule compareFrom_equal)
  then show ?thesis
    unfolding isVersionOutdated_def Let_def
      map_Number_numeric[OF assms(1)] map_Number_numeric[OF assms(2)] .
qed

text \<open>The example of the claim: \<^verbatim>\<open>1.2\<close> against \<^verbatim>\<open>1.2.0\<close>.\<close>

theorem isVersionOutdated_componentwiseEqual_witness:
  "isNumericVersion ''1.2'' \<and> isNumericVersion ''1.2.0'' \<and> componentwiseEqual ''1.2'' ''1.2.0''
   \<and> \<not> isVersionOutdated ''1.2'' ''1.2.0''"
proof -
  have 1: "isNumericVersion ''1.2''" by code_simp
  have 2: "isNumericVersion ''1.2.0''" by code_simp
  have 3: "componentwiseEqual ''1.2'' ''1.2.0''" by code_simp
  from isVersionOutdated_componentwiseEqual[OF 1 2 3] 1 2 3 show ?thesis by simp
qed

section \<open>Properties of the analysis loop\<close>

lemma analyzePackage_state:
  "snd (analyzePackage fetch this n v t) = this\<lparr>requestCount := Suc (requestCount this)\<rparr>"
  by (simp add: analyzePackage_def Let_def split: sum.splits)

lemma analyzePackage_result:
  "fst (analyzePackage fetch this n v t)
     = fst (analyzePackage fetch \<lparr>analyzer_packages = [], requestCount = requestCount this\<rparr> n v t)"
  by (simp add: analyzePackage_def Let_def split: sum.splits)

lemma analyzeDep_eq:
  "analyzeDep fetch this dep =
     \<lparr>analyzer_packages = analyzer_packages this @ [entryOf fetch (Suc (requestCount this)) dep],
      requestCount = Suc (requestCount this)\<rparr>"
proof -
  obtain r s where rs: "analyzePackage fetch this (dep_name dep) (dep_version dep) (dep_type dep) = (r, s)"
    by (cases "analyzePackage fetch this (dep_name dep) (dep_version dep) (dep_type dep)")
  have s: "s = this\<lparr>requestCount := Suc (requestCount this)\<rparr>"
    using analyzePackage_state[of fetch this "dep_name dep" "dep_version dep" "dep_type dep"] rs by simp
  have r: "fst (analyzePackage fetch \<lparr>analyzer_packages = [], requestCount = requestCount this\<rparr>
                  (dep_name dep) (dep_version dep) (dep_type dep)) = r"
    using analyzePackage_result[of fetch this "dep_name dep" "dep_version dep" "dep_type dep"] rs by simp
  show ?thesis
    by (cases r) (simp_all add: analyzeDep_def rs s entryOf_def r)
qed

lemma foldl_analyzeDep:
  "foldl (analyzeDep fetch) this deps =
     \<lparr>analyzer_packages = analyzer_packages this
        @ map (\<lambda>i. entryOf fetch (requestCount this + Suc i) (deps ! i)) [0..<length deps],
      requestCount = requestCount this + length deps\<rparr>"
proof (induction deps rule: rev_induct)
  case Nil
  then show ?case by simp
next
  case (snoc d ds)
  define S where "S = foldl (analyzeDep fetch) this ds"
  have m: "map (\<lambda>i. entryOf fetch (requestCount this + Suc i) ((ds @ [d]) ! i)) [0..<length ds]
        = map (\<lambda>i. entryOf fetch (requestCount this + Suc i) (ds ! i)) [0..<length ds]"
    by (rule map_cong) (simp_all add: nth_append)
  have "foldl (analyzeDep fetch) this (ds @ [d]) = analyzeDep fetch S d"
    by (simp add: S_def)
  also have "\<dots> = \<lparr>analyzer_packages = analyzer_packages S @ [entryOf fetch (Suc (requestCount S)) d],
                     requestCount = Suc (requestCount S)\<rparr>"
    by (rule analyzeDep_eq)
  finally show ?case
    using snoc.IH m by (simp add: S_def nth_append)
qed

lemma name_entryOf: "name (entryOf fetch n dep) = dep_name dep"
  by (simp add: entryOf_def analyzePackage_def Let_def failedEntry_def split: sum.splits)

lemma installedVersion_entryOf: "installedVersion (entryOf fetch n dep) = dep_version dep"
  by (simp add: entryOf_def analyzePackage_def Let_def failedEntry_def split: sum.splits)

lemma entryOf_failed: "fetch n (dep_name dep) = Inl e \<Longrightarrow> 0 < n \<Longrightarrow> entryOf fetch n dep = failedEntry dep"
  by (simp add: entryOf_def analyzePackage_def Let_def)

lemma analyzePackageJson_packages:
  "analyzePackageJson engine fetch (Inr packageJson) this =
     Inr (generateReport engine (foldl (analyzeDep fetch) (this\<lparr>analyzer_packages := []\<rparr>)
                            (extractDependencies packageJson)),
          foldl (analyzeDep fetch) (this\<lparr>analyzer_packages := []\<rparr>)
            (extractDependencies packageJson))"
  by (simp add: analyzePackageJson_def Let_def)

lemma packages_generateReport: "packages (generateReport engine this) = analyzer_packages this"
  by (simp add: generateReport_def)

lemma run_packages:
  "analyzer_packages (foldl (analyzeDep fetch) (this\<lparr>analyzer_packages := []\<rparr>) deps)
     = map (\<lambda>i. entryOf fetch (requestCount this + Suc i) (deps ! i)) [0..<length deps]"
  by (simp add: foldl_analyzeDep)

lemma entryOf_fetched:
  assumes "fetch n (dep_name dep) = Inr info" and "0 < n"
  shows "entryOf fetch n dep =
           \<lparr>name = dep_name dep,
            installedVersion = dep_version dep,
            latestVersion = npm_version info,
            description = orString (npm_description info) [],
            license = orString (npm_license info) ''unknown'',
            author = formatAuthor (npm_author info),
            homepage = orString (npm_homepage info) [],
            repository = formatRepository (npm_repository info),
            pkg_keywords = (case npm_keywords info of None \<Rightarrow> [] | Some ks \<Rightarrow> ks),
            maintainers = (case npm_maintainers info of None \<Rightarrow> 0 | Some ms \<Rightarrow> length ms),
            created = (case npm_time info of None \<Rightarrow> [] | Some t \<Rightarrow> time_created t),
            lastModified = (case npm_time info of None \<Rightarrow> [] | Some t \<Rightarrow> time_modified t),
            isOutdated = isVersionOutdated (cleanVersion (dep_version dep)) (npm_version info),
            securityIssues = None,
            dependencyType = dep_type dep\<rparr>"
  using assms by (simp add: entryOf_def analyzePackage_def Let_def)

text \<open>
  Claim C3. The run over a manifest always returns a report. When the fetch for the
  dependency at position \<open>i\<close> fails, the entry at position \<open>i\<close> is the placeholder: latest
  version, license and author \<^verbatim>\<open>unknown\<close>, not outdated. The run is not cut short: the
  report has one entry per dependency, in manifest order, and every entry is decided by
  the fetch for its own dependency, the placeholder when that fetch fails and the full
  analysis of the registry's answer when it succeeds, whatever happened to the fetches
  before it.
\<close>

theorem failed_fetch_recorded:
  assumes "i < length (extractDependencies packageJson)"
    and "fetch (requestCount this + Suc i) (dep_name (extractDependencies packageJson ! i)) = Inl e"
  shows "case analyzePackageJson engine fetch (Inr packageJson) this of
           Inl err \<Rightarrow> False
         | Inr (report, this') \<Rightarrow>
             length (packages report) = length (extractDependencies packageJson)
             \<and> map name (packages report) = map dep_name (extractDependencies packageJson)
             \<and> packages report ! i = failedEntry (extractDependencies packageJson ! i)
             \<and> latestVersion (packages report ! i) = ''unknown''
             \<and> license (packages report ! i) = ''unknown''
             \<and> author (packages report ! i) = ''unknown''
             \<and> \<not> isOutdated (packages report ! i)
             \<and> (\<forall>j<length (extractDependencies packageJson).
                  case fetch (requestCount this + Suc j)
                         (dep_name (extractDependencies packageJson ! j)) of
                    Inl err \<Rightarrow>
                      packages report ! j = failedEntry (extractDependencies packageJson ! j)
                  | Inr info \<Rightarrow>
                      packages report ! j =
                        \<lparr>name = dep_name (extractDependencies packageJson ! j),
                         installedVersion = dep_version (extractDependencies packageJson ! j),
                         latestVersion = npm_version info,
                         description = orString (npm_description info) [],
                         license = orString (npm_license info) ''unknown'',
                         author = formatAuthor (npm_author info),
                         homepage = orString (npm_homepage info) [],
                         repository = formatRepository (npm_repository info),
                         pkg_keywords =
                           (case npm_keywords info of None \<Rightarrow> [] | Some ks \<Rightarrow> ks),
                         maintainers =
                           (case npm_maintainers info of None \<Rightarrow> 0 | Some ms \<Rightarrow> length ms),
                         created =
                           (case npm_time info of None \<Rightarrow> [] | Some t \<Rightarrow> time_created t),
                         lastModified =
                           (case npm_time info of None \<Rightarrow> [] | Some t \<Rightarrow> time_modified t),
                         isOutdated =
                           isVersionOutdated
                             (cleanVersion (dep_version (extractDependencies packageJson ! j)))
                             (npm_version info),
                         securityIssues = None,
                         dependencyType = dep_type (extractDependencies packageJson ! j)\<rparr>)"
proof -
  let ?deps = "extractDependencies packageJson"
  let ?ps = "map (\<lambda>i. entryOf fetch (requestCount this + Suc i) (?deps ! i)) [0..<length ?deps]"
  have n: "map name ?ps = map dep_name ?deps"
    by (rule nth_equalityI) (simp_all add: name_entryOf)
  have f: "?ps ! i = failedEntry (?deps ! i)"
    using assms by (simp add: entryOf_failed)
  have all: "\<forall>j<length ?deps.
      case fetch (requestCount this + Suc j) (dep_name (?deps ! j)) of
        Inl err \<Rightarrow> ?ps ! j = failedEntry (?deps ! j)
      | Inr info \<Rightarrow> ?ps ! j =
                        \<lparr>name = dep_name (extractDependencies packageJson ! j),
                         installedVersion = dep_version (extractDependencies packageJson ! j),
                         latestVersion = npm_version info,
                         description = orString (npm_description info) [],
                         license = orString (npm_license info) ''unknown'',
                         author = formatAuthor (npm_author info),
                         homepage = orString (npm_homepage info) [],
                         repository = formatRepository (npm_repository info),
                         pkg_keywords =
                           (case npm_keywords info of None \<Rightarrow> [] | Some ks \<Rightarrow> ks),
                         maintainers =
                           (case npm_maintainers info of None \<Rightarrow> 0 | Some ms \<Rightarrow> length ms),
                         created =
                           (case npm_time info of None \<Rightarrow> [] | Some t \<Rightarrow> time_created t),
                         lastModified =
                           (case npm_time info of None \<Rightarrow> [] | Some t \<Rightarrow> time_modified t),
                         isOutdated =
                           isVersionOutdated
                             (cleanVersion (dep_version (extractDependencies packageJson ! j)))
                             (npm_version info),
                         securityIssues = None,
                         dependencyType = dep_type (extractDependencies packageJson ! j)\<rparr>"
  proof (intro allI impI)
    fix j assume j: "j < length ?deps"
    show "case fetch (requestCount this + Suc j) (dep_name (?deps ! j)) of
        Inl err \<Rightarrow> ?ps ! j = failedEntry (?deps ! j)
      | Inr info \<Rightarrow> ?ps ! j =
                        \<lparr>name = dep_name (extractDependencies packageJson ! j),
                         installedVersion = dep_version (extractDependencies packageJson ! j),
                         latestVersion = npm_version info,
                         description = orString (npm_description info) [],
                         license = orString (npm_license info) ''unknown'',
                         author = formatAuthor (npm_author info),
                         homepage = orString (npm_homepage info) [],
                         repository = formatRepository (npm_repository info),
                         pkg_keywords =
                           (case npm_keywords info of None \<Rightarrow> [] | Some ks \<Rightarrow> ks),
                         maintainers =
                           (case npm_maintainers info of None \<Rightarrow> 0 | Some ms \<Rightarrow> length ms),
                         created =
                           (case npm_time info of None \<Rightarrow> [] | Some t \<Rightarrow> time_created t),
                         lastModified =
                           (case npm_time info of None \<Rightarrow> [] | Some t \<Rightarrow> time_modified t),
                         isOutdated =
                           isVersionOutdated
                             (cleanVersion (dep_version (extractDependencies packageJson ! j)))
                             (npm_version info),
                         securityIssues = None,
                         dependencyType = dep_type (extractDependencies packageJson ! j)\<rparr>"
    proof (cases "fetch (requestCount this + Suc j) (dep_name (?deps ! j))")
      case (Inl err)
      then show ?thesis using j by (simp add: entryOf_failed)
    next
      case (Inr info)
      then show ?thesis
        using j entryOf_fetched[of fetch "requestCount this + Suc j" "?deps ! j" info] by simp
    qed
  qed
  have P: "packages (generateReport engine (foldl (analyzeDep fetch)
              (this\<lparr>analyzer_packages := []\<rparr>) ?deps)) = ?ps"
    by (simp add: packages_generateReport run_packages)
  have len: "length ?ps = length ?deps" by simp
  have f1: "latestVersion (?ps ! i) = ''unknown''" by (simp only: f) (simp add: failedEntry_def)
  have f2: "license (?ps ! i) = ''unknown''" by (simp only: f) (simp add: failedEntry_def)
  have f3: "author (?ps ! i) = ''unknown''" by (simp only: f) (simp add: failedEntry_def)
  have f4: "\<not> isOutdated (?ps ! i)" by (simp only: f) (simp add: failedEntry_def)
  show ?thesis
    unfolding analyzePackageJson_packages sum.case prod.case P
    by (intro conjI len n f f1 f2 f3 f4 all)
qed

text \<open>
  The scenario with the registry failing for \<^verbatim>\<open>tsx\<close>, the second of three dependencies:
  \<^verbatim>\<open>typescript\<close>, which comes after it, is fetched and found outdated.
\<close>

theorem failed_fetch_recorded_witness:
  "1 < length (extractDependencies exampleManifest)
   \<and> failingRegistry (requestCount newAnalyzer + Suc 1)
         (dep_name (extractDependencies exampleManifest ! 1)) = Inl (FetchError ''tsx'')
   \<and> (case analyzePackageJson exampleEngine failingRegistry (Inr exampleManifest) newAnalyzer of
          Inl err \<Rightarrow> False
        | Inr (report, this') \<Rightarrow>
            packages report ! 1 = failedEntry (extractDependencies exampleManifest ! 1)
            \<and> map name (packages report) = [''@types/node'', ''tsx'', ''typescript'']
            \<and> map latestVersion (packages report) = [''24.3.0'', ''unknown'', ''5.9.2'']
            \<and> map isOutdated (packages report) = [True, False, True]
            \<and> map license (packages report) = [''MIT'', ''unknown'', ''Apache-2.0''])"
proof -
  have 1: "1 < length (extractDependencies exampleManifest)" by code_simp
  have 2: "failingRegistry (requestCount newAnalyzer + Suc 1)
         (dep_name (extractDependencies exampleManifest ! 1)) = Inl (FetchError ''tsx'')"
    by code_simp
  have 3: "case analyzePackageJson exampleEngine failingRegistry (Inr exampleManifest) newAnalyzer of
          Inl err \<Rightarrow> False
        | Inr (report, this') \<Rightarrow>
            map name (packages report) = [''@types/node'', ''tsx'', ''typescript'']
            \<and> map latestVersion (packages report) = [''24.3.0'', ''unknown'', ''5.9.2'']
            \<and> map isOutdated (packages report) = [True, False, True]
            \<and> map license (packages report) = [''MIT'', ''unknown'', ''Apache-2.0'']"
    by code_simp
  from failed_fetch_recorded[of 1 exampleManifest failingRegistry newAnalyzer _ exampleEngine, OF 1 2]
    1 2 3
  show ?thesis by (auto split: sum.splits prod.splits)
qed

text \<open>
  Claim C4. The run over a manifest always returns a report, and its \<^verbatim>\<open>totalPackages\<close> is
  the number of manifest entries, fetched or failed: the length of the collected list,
  which holds one entry per dependency in manifest order. Rendering the report leaves
  \<^verbatim>\<open>totalPackages\<close> as it was computed.
\<close>

theorem totalPackages_counts_entries:
  "case analyzePackageJson engine fetch (Inr packageJson) this of
     Inl err \<Rightarrow> False
   | Inr (report, this') \<Rightarrow>
       totalPackages report = length (extractDependencies packageJson)
       \<and> totalPackages report = length (packages report)
       \<and> map name (packages report) = map dep_name (extractDependencies packageJson)
       \<and> map installedVersion (packages report) = map dep_version (extractDependencies packageJson)
       \<and> analyzer_packages this' = packages report
       \<and> totalPackages (fst (generateReportFile engine localeCompare now report)) = totalPackages report"
proof -
  let ?deps = "extractDependencies packageJson"
  let ?ps = "map (\<lambda>i. entryOf fetch (requestCount this + Suc i) (?deps ! i)) [0..<length ?deps]"
  have n: "map name ?ps = map dep_name ?deps"
    by (rule nth_equalityI) (simp_all add: name_entryOf)
  have v: "map installedVersion ?ps = map dep_version ?deps"
    by (rule nth_equalityI) (simp_all add: installedVersion_entryOf)
  have t: "totalPackages (generateReport engine s) = length (analyzer_packages s)" for s
    by (simp add: generateReport_def)
  have g: "totalPackages (fst (generateReportFile engine localeCompare now r)) = totalPackages r" for r
    by (simp add: generateReportFile_def Let_def)
  show ?thesis
    unfolding analyzePackageJson_packages
    using n v by (simp add: packages_generateReport run_packages t g)
qed

section \<open>Properties of the renderer\<close>

lemma sortEntries_Nil: "sortEntries engine [] = []"
  by (simp add: sortEntries_def consistentBy_def sortBy_def)

lemma mset_insertBy: "mset (insertBy cmp x ys) = add_mset x (mset ys)"
  by (induction ys) auto

lemma mset_sortBy: "mset (sortBy cmp xs) = mset xs"
  by (induction xs) (auto simp: sortBy_def mset_insertBy)

lemma set_insertBy: "set (insertBy cmp x ys) = insert x (set ys)"
  by (induction ys) auto

lemma set_sortBy: "set (sortBy cmp xs) = set xs"
  by (induction xs) (auto simp: sortBy_def set_insertBy)

lemma sortBy_Cons: "sortBy cmp (x # xs) = insertBy cmp x (sortBy cmp xs)"
  by (simp add: sortBy_def)

lemma consistentOn_total:
  "consistentOn cmp xs \<Longrightarrow> a \<in> set xs \<Longrightarrow> b \<in> set xs \<Longrightarrow> 0 < cmp a b \<Longrightarrow> cmp b a < 0"
  by (auto simp: consistentOn_def list_all_iff)

lemma consistentOn_trans:
  "consistentOn cmp xs \<Longrightarrow> a \<in> set xs \<Longrightarrow> b \<in> set xs \<Longrightarrow> c \<in> set xs \<Longrightarrow>
     cmp a b \<le> 0 \<Longrightarrow> cmp b c \<le> 0 \<Longrightarrow> cmp a c \<le> 0"
  unfolding consistentOn_def list_all_iff by metis

lemma byName_pos: "js_less (Fin 0) (byName cmp a b) = (0 < cmp (name a) (name b))"
  by (simp add: byName_def)

lemma nameOrdered_insertBy:
  assumes c: "consistentOn cmp ns" and x: "name x \<in> set ns" and ys: "name ` set ys \<subseteq> set ns"
    and s: "nameOrdered cmp ys"
  shows "nameOrdered cmp (insertBy (byName cmp) x ys)"
  using ys s
proof (induction ys)
  case Nil
  then show ?case by (simp add: nameOrdered_def)
next
  case (Cons y ys)
  then have y: "name y \<in> set ns" and ys': "name ` set ys \<subseteq> set ns"
    and sy: "\<forall>z\<in>set ys. cmp (name y) (name z) \<le> 0" and so: "nameOrdered cmp ys"
    by (auto simp: nameOrdered_def)
  show ?case
  proof (cases "0 < cmp (name x) (name y)")
    case True
    then have "cmp (name y) (name x) \<le> 0"
      using consistentOn_total[OF c x y] by simp
    with True sy Cons.IH[OF ys' so] show ?thesis
      by (auto simp: nameOrdered_def byName_pos set_insertBy)
  next
    case False
    then have xy: "cmp (name x) (name y) \<le> 0" by simp
    have "cmp (name x) (name z) \<le> 0" if "z \<in> set ys" for z
    proof -
      from that ys' have "name z \<in> set ns" by auto
      moreover from that sy have "cmp (name y) (name z) \<le> 0" by simp
      ultimately show ?thesis using consistentOn_trans[OF c x y _ xy] by blast
    qed
    with False xy Cons.prems(2) show ?thesis
      by (auto simp: nameOrdered_def byName_pos)
  qed
qed

lemma nameOrdered_sortBy:
  assumes "consistentOn cmp (map name pkgs)"
  shows "nameOrdered cmp (sortBy (byName cmp) pkgs)"
proof -
  have "name ` set ps \<subseteq> set (map name pkgs) \<Longrightarrow> nameOrdered cmp (sortBy (byName cmp) ps)" for ps
  proof (induction ps)
    case Nil
    then show ?case by (simp add: sortBy_def nameOrdered_def)
  next
    case (Cons p ps)
    then show ?case
      by (simp add: sortBy_Cons nameOrdered_insertBy[OF assms] set_sortBy)
  qed
  then show ?thesis by simp
qed

lemma sortBy_ordered: "nameOrdered cmp pkgs \<Longrightarrow> sortBy (byName cmp) pkgs = pkgs"
proof (induction pkgs)
  case Nil
  then show ?case by (simp add: sortBy_def)
next
  case (Cons p ps)
  then have ps: "sortBy (byName cmp) ps = ps" by (simp add: nameOrdered_def)
  have "sortBy (byName cmp) (p # ps) = insertBy (byName cmp) p ps"
    by (simp only: sortBy_Cons ps)
  also have "\<dots> = p # ps" using Cons.prems
    by (cases ps) (auto simp: nameOrdered_def byName_pos)
  finally show ?case .
qed

text \<open>
  Claim C9. For a manifest without dependencies the run returns a report with
  \<^verbatim>\<open>totalPackages\<close> \<open>0\<close>, and rendering it returns the text below and does not fail: the
  unguarded division \<open>0 / 0\<close> is \<open>NaN\<close>, which \<^verbatim>\<open>toFixed\<close> prints as \<^verbatim>\<open>NaN\<close>, so the summary
  reads \<^verbatim>\<open>0 (NaN%)\<close>. The license section has no line, its tally being empty.
\<close>

theorem empty_manifest_renders_NaN:
  assumes "extractDependencies packageJson = []"
  shows "case analyzePackageJson engine fetch (Inr packageJson) this of
           Inl err \<Rightarrow> False
         | Inr (report, this') \<Rightarrow>
             totalPackages report = 0
             \<and> snd (generateReportFile engine localeCompare now report) =
                 ''# Package Dependency Analysis Report\<newline>\<newline>''
                 @ ''Generated on: '' @ now @ ''\<newline>\<newline>''
                 @ ''## Summary\<newline>\<newline>''
                 @ ''- **Total Packages**: 0\<newline>''
                 @ ''- **Outdated Packages**: 0 (NaN%)\<newline>\<newline>''
                 @ ''## License Distribution\<newline>\<newline>''
                 @ ''\<newline>## All Packages\<newline>\<newline>''
                 @ ''| Package | Version | Latest | License | Author | Outdated |\<newline>''
                 @ ''|---------|---------|--------|---------|---------|---------|\<newline>''"
proof -
  have p: "percentage (JNum 0) 0 = ''NaN''"
    by (simp add: percentage_def toNumber_def toFixed1_def)
  have r: "generateReport engine (this\<lparr>analyzer_packages := []\<rparr>) =
             \<lparr>totalPackages = 0, outdatedPackages = 0, packagesWithSecurityIssues = 0,
              licenseDistribution = [], topMaintainers = [], packages = []\<rparr>"
    by (simp add: generateReport_def countLicenses_def countMaintainers_def Object_entries_def
        sortEntries_Nil)
  show ?thesis
    using assms
    by (simp add: analyzePackageJson_def Let_def r generateReportFile_def summarySection_def p
        licenseSection_def maintainersSection_def outdatedSection_def allPackagesSection_def
        Object_entries_def sortBy_def sortEntries_Nil)
qed

text \<open>A manifest whose only group is empty.\<close>

theorem empty_manifest_renders_NaN_witness:
  "extractDependencies \<lparr>dependencies = None, devDependencies = Some [], peerDependencies = None\<rparr> = []
   \<and> (case analyzePackageJson exampleEngine exampleRegistry
            (Inr \<lparr>dependencies = None, devDependencies = Some [], peerDependencies = None\<rparr>)
            newAnalyzer of
          Inl err \<Rightarrow> False
        | Inr (report, this') \<Rightarrow>
            totalPackages report = 0
            \<and> snd (generateReportFile exampleEngine codeUnitCompare ''2025-08-27T22:11:47.035Z'' report) =
                ''# Package Dependency Analysis Report\<newline>\<newline>''
                @ ''Generated on: '' @ ''2025-08-27T22:11:47.035Z'' @ ''\<newline>\<newline>''
                @ ''## Summary\<newline>\<newline>''
                @ ''- **Total Packages**: 0\<newline>''
                @ ''- **Outdated Packages**: 0 (NaN%)\<newline>\<newline>''
                @ ''## License Distribution\<newline>\<newline>''
                @ ''\<newline>## All Packages\<newline>\<newline>''
                @ ''| Package | Version | Latest | License | Author | Outdated |\<newline>''
                @ ''|---------|---------|--------|---------|---------|---------|\<newline>'')"
proof -
  have 1: "extractDependencies \<lparr>dependencies = None, devDependencies = Some [], peerDependencies = None\<rparr> = []"
    by code_simp
  from empty_manifest_renders_NaN[of "\<lparr>dependencies = None, devDependencies = Some [], peerDependencies = None\<rparr>"
      exampleEngine codeUnitCompare "''2025-08-27T22:11:47.035Z''" exampleRegistry newAnalyzer,
      OF 1] 1
  show ?thesis by (simp split: sum.splits prod.splits)
qed

text \<open>
  Claim C10. \<^verbatim>\<open>generateReportFile\<close> changes the report it is given in the package list and
  nowhere else: the list is left sorted by name, a rearrangement of the same entries,
  and it is the list it was exactly when that one was in name order already. The text
  has the outdated table built from the list as it was before the sort, in insertion
  order, and the full table built from the sorted list.
\<close>

theorem generateReportFile_sorts_packages:
  assumes "consistentOn localeCompare (map name (packages report))"
  shows "case generateReportFile engine localeCompare now report of
           (report', content) \<Rightarrow>
             packages report' = sortBy (byName localeCompare) (packages report)
             \<and> mset (packages report') = mset (packages report)
             \<and> nameOrdered localeCompare (packages report')
             \<and> (packages report' = packages report) = nameOrdered localeCompare (packages report)
             \<and> report'\<lparr>packages := packages report\<rparr> = report
             \<and> content =
                 summarySection now report @ licenseSection engine report @ maintainersSection report
                 @ outdatedSection (filter isOutdated (packages report))
                 @ allPackagesSection (packages report')"
proof -
  let ?s = "sortBy (byName localeCompare) (packages report)"
  have o: "nameOrdered localeCompare ?s" by (rule nameOrdered_sortBy[OF assms])
  have "(?s = packages report) = nameOrdered localeCompare (packages report)"
    using o sortBy_ordered by fastforce
  with o show ?thesis
    by (simp add: generateReportFile_def Let_def mset_sortBy)
qed

text \<open>
  Three packages collected in the order \<^verbatim>\<open>tsx\<close>, \<^verbatim>\<open>lodash\<close>, \<^verbatim>\<open>@types/node\<close>: the list of the
  report is reordered, and the outdated table keeps \<^verbatim>\<open>tsx\<close> before \<^verbatim>\<open>@types/node\<close>.
\<close>

theorem generateReportFile_sorts_packages_witness:
  "consistentOn codeUnitCompare (map name (packages (generateReport exampleEngine unsortedAnalyzer)))
   \<and> map name (packages (generateReport exampleEngine unsortedAnalyzer)) = [''tsx'', ''lodash'', ''@types/node'']
   \<and> (case generateReportFile exampleEngine codeUnitCompare ''2025-08-27T22:11:47.035Z''
               (generateReport exampleEngine unsortedAnalyzer) of
          (report', content) \<Rightarrow>
            map name (packages report') = [''@types/node'', ''lodash'', ''tsx'']
            \<and> packages report' \<noteq> packages (generateReport exampleEngine unsortedAnalyzer)
            \<and> outdatedSection (filter isOutdated (packages (generateReport exampleEngine unsortedAnalyzer)))
                = ''\<newline>## Outdated Packages\<newline>\<newline>''
                  @ ''| Package | Installed | Latest | Type |\<newline>''
                  @ ''|---------|-----------|--------|----- |\<newline>''
                  @ ''| tsx | ^4.0.0 | 4.20.5 | devDependency |\<newline>''
                  @ ''| @types/node | ^20.0.0 | 24.3.0 | devDependency |\<newline>'')"
proof -
  have 1: "consistentOn codeUnitCompare (map name (packages (generateReport exampleEngine unsortedAnalyzer)))"
    by code_simp
  have 2: "map name (packages (generateReport exampleEngine unsortedAnalyzer)) = [''tsx'', ''lodash'', ''@types/node'']"
    by code_simp
  have 3: "map name (sortBy (byName codeUnitCompare) (packages (generateReport exampleEngine unsortedAnalyzer)))
             = [''@types/node'', ''lodash'', ''tsx'']"
    by code_simp
  have 4: "outdatedSection (filter isOutdated (packages (generateReport exampleEngine unsortedAnalyzer)))
                = ''\<newline>## Outdated Packages\<newline>\<newline>''
                  @ ''| Package | Installed | Latest | Type |\<newline>''
                  @ ''|---------|-----------|--------|----- |\<newline>''
                  @ ''| tsx | ^4.0.0 | 4.20.5 | devDependency |\<newline>''
                  @ ''| @types/node | ^20.0.0 | 24.3.0 | devDependency |\<newline>''"
    by code_simp
  have 5: "\<not> nameOrdered codeUnitCompare (packages (generateReport exampleEngine unsortedAnalyzer))"
    by code_simp
  from generateReportFile_sorts_packages[OF 1, of "''2025-08-27T22:11:47.035Z''" exampleEngine] 1 2 3 4 5
  show ?thesis
    by (auto split: prod.splits)
qed

text \<open>
  The scenario of the specification, three development dependencies that are all behind:
  the run and the rendering give, byte for byte, the report of that run that the
  repository keeps in \<^verbatim>\<open>dependency-analysis-report.md\<close>.
\<close>

lemma sample_report_reproduced:
  "(case analyzePackageJson exampleEngine exampleRegistry (Inr exampleManifest) newAnalyzer of
      Inl err \<Rightarrow> None
    | Inr (report, this') \<Rightarrow>
        Some (totalPackages report, outdatedPackages report,
              snd (generateReportFile exampleEngine codeUnitCompare ''2025-08-27T15:31:50.231Z'' report)))
   = Some (3, 3,
       ''# Package Dependency Analysis Report\<newline>\<newline>''
       @ ''Generated on: 2025-08-27T15:31:50.231Z\<newline>\<newline>''
       @ ''## Summary\<newline>\<newline>''
       @ ''- **Total Packages**: 3\<newline>''
       @ ''- **Outdated Packages**: 3 (100.0%)\<newline>\<newline>''
       @ ''## License Distribution\<newline>\<newline>''
       @ ''- **MIT**: 2 packages (66.7%)\<newline>''
       @ ''- **Apache-2.0**: 1 packages (33.3%)\<newline>''
       @ ''\<newline>## Top Package Authors\<newline>\<newline>''
       @ ''- **Hiroki Osame**: 1 packages\<newline>''
       @ ''- **Microsoft Corp.**: 1 packages\<newline>''
       @ ''\<newline>## Outdated Packages\<newline>\<newline>''
       @ ''| Package | Installed | Latest | Type |\<newline>''
       @ ''|---------|-----------|--------|----- |\<newline>''
       @ ''| @types/node | ^20.0.0 | 24.3.0 | devDependency |\<newline>''
       @ ''| tsx | ^4.0.0 | 4.20.5 | devDependency |\<newline>''
       @ ''| typescript | ^5.0.0 | 5.9.2 | devDependency |\<newline>''
       @ ''\<newline>## All Packages\<newline>\<newline>''
       @ ''| Package | Version | Latest | License | Author | Outdated |\<newline>''
       @ ''|---------|---------|--------|---------|---------|---------|\<newline>''
       @ ''| @types/node | ^20.0.0 | 24.3.0 | MIT | unknown | '' @ warningIcon @ '' |\<newline>''
       @ ''| tsx | ^4.0.0 | 4.20.5 | MIT | Hiroki Osame | '' @ warningIcon @ '' |\<newline>''
       @ ''| typescript | ^5.0.0 | 5.9.2 | Apache-2.0 | Microsoft Corp. | '' @ warningIcon
       @ '' |\<newline>'')"
  by code_simp

section \<open>Properties of the aggregator\<close>

subsection \<open>Rounding keeps the sign of an integer\<close>

lemma binexp_le:
  assumes "0 < x"
  shows "power_int 2 (binexp x) \<le> x"
proof -
  obtain p q where pq: "quotient_of x = (p, q)" by (cases "quotient_of x")
  then have q: "0 < q" and x: "x = of_int p / of_int q"
    by (simp_all add: quotient_of_denom_pos quotient_of_div)
  from assms x q have p: "0 < p"
    by (simp add: zero_less_divide_iff)
  define e where "e = bitlen p - bitlen q"
  show ?thesis
  proof (cases "power_int 2 e \<le> x")
    case True
    then show ?thesis by (simp add: binexp_def pq e_def)
  next
    case False
    have bp: "(2::int) ^ nat (bitlen p - 1) \<le> p" using bitlen_bounds[OF p] by simp
    have bq: "q < (2::int) ^ nat (bitlen q)" using bitlen_bounds[OF q] by simp
    have p1: "1 \<le> bitlen p" using p bitlen_nonneg[of p] bitlen_eq_zero_iff[of p] by linarith
    have "(2::rat) ^ nat (bitlen p - 1) \<le> of_int p"
      using bp by (metis of_int_le_iff of_int_numeral of_int_power)
    moreover have "of_int q \<le> (2::rat) ^ nat (bitlen q)"
      using bq by (metis less_imp_le of_int_le_iff of_int_numeral of_int_power)
    moreover have "(0::rat) < of_int q" using q by simp
    moreover have "(0::rat) \<le> of_int p" using p by simp
    ultimately have "(2::rat) ^ nat (bitlen p - 1) / 2 ^ nat (bitlen q) \<le> of_int p / of_int q"
      by (intro frac_le)
    moreover have "power_int (2::rat) (e - 1) = 2 ^ nat (bitlen p - 1) / 2 ^ nat (bitlen q)"
    proof -
      have "e - 1 = (bitlen p - 1) - bitlen q" by (simp add: e_def)
      then have "power_int (2::rat) (e - 1) = power_int 2 (bitlen p - 1) / power_int 2 (bitlen q)"
        by (simp add: power_int_diff)
      then show ?thesis using p1 bitlen_nonneg[of q] by (simp add: power_int_def)
    qed
    ultimately have "power_int 2 (e - 1) \<le> x" by (simp add: x)
    with False show ?thesis by (simp add: binexp_def pq e_def)
  qed
qed

lemma roundHalfEven_pos: "1 \<le> y \<Longrightarrow> 1 \<le> roundHalfEven y"
proof -
  assume "1 \<le> y"
  then have "1 \<le> \<lfloor>y\<rfloor>" by simp
  then show ?thesis by (simp add: roundHalfEven_def Let_def)
qed

lemma roundPos_positive:
  assumes "1 \<le> x"
  shows "roundPos x = PosInf \<or> (\<exists>v. 0 < v \<and> roundPos x = Fin v)"
proof -
  define u where "u = max (binexp x - 52) (- 1074)"
  have x0: "0 < x" using assms by simp
  have "power_int (2::rat) u \<le> x"
  proof (cases "binexp x - 52 \<le> - 1074")
    case True
    then have "u = - 1074" by (simp add: u_def)
    moreover have "power_int (2::rat) (- 1074) \<le> 1"
      by (simp add: power_int_def power_le_one)
    ultimately show ?thesis using assms by simp
  next
    case False
    then have "u = binexp x - 52" by (simp add: u_def)
    then have "power_int (2::rat) u \<le> power_int 2 (binexp x)"
      by (simp add: power_int_increasing)
    with binexp_le[OF x0] show ?thesis by simp
  qed
  then have "1 \<le> x / power_int 2 u"
    by (simp add: le_divide_eq)
  then have m: "1 \<le> roundHalfEven (x / power_int 2 u)" by (rule roundHalfEven_pos)
  then have "(0::rat) < of_int (roundHalfEven (x / power_int 2 u)) * power_int 2 u"
    by (simp add: zero_less_mult_iff)
  then show ?thesis
    by (simp add: roundPos_def Let_def u_def)
qed

lemma isSafeInteger_of_int: "isSafeInteger (of_int k) = (\<bar>k\<bar> \<le> 9007199254740992)"
proof -
  have "(\<bar>rat_of_int k\<bar> \<le> 9007199254740992) = (\<bar>k\<bar> \<le> 9007199254740992)"
    by (metis of_int_abs of_int_le_iff of_int_numeral)
  then show ?thesis by (simp add: isSafeInteger_def)
qed

lemma toDouble_int_sign:
  "js_less (Fin 0) (toDouble (of_int k)) = (0 < k)"
proof (cases "\<bar>k\<bar> \<le> 9007199254740992")
  case True
  then show ?thesis by (simp add: toDouble_def isSafeInteger_of_int)
next
  case False
  show ?thesis
  proof (cases "k < 0")
    case True
    then have "1 \<le> - k" by simp
    then have "rat_of_int 1 \<le> rat_of_int (- k)" by (simp only: of_int_le_iff)
    then have "1 \<le> - rat_of_int k" by simp
    from roundPos_positive[OF this] True False show ?thesis
      by (auto simp: toDouble_def isSafeInteger_of_int)
  next
    case nn: False
    with False have "1 \<le> rat_of_int k" by simp
    from roundPos_positive[OF this] nn False show ?thesis
      by (auto simp: toDouble_def isSafeInteger_of_int)
  qed
qed

lemma isSafeInteger_minus: "isSafeInteger (- x) = isSafeInteger x"
proof -
  have "(- x = of_int \<lfloor>- x\<rfloor>) = (x = of_int \<lfloor>x\<rfloor>)"
    by (metis Ints_minus Ints_of_int add.inverse_inverse floor_of_int Ints_cases)
  then show ?thesis by (simp add: isSafeInteger_def)
qed

lemma js_neg_js_neg: "js_neg (js_neg a) = a"
  by (cases a) auto

lemma toDouble_minus: "toDouble (- x) = js_neg (toDouble x)"
proof (cases "isSafeInteger x")
  case True
  then show ?thesis by (simp add: toDouble_def isSafeInteger_minus)
next
  case False
  then have "x \<noteq> 0" by (auto simp: isSafeInteger_def)
  with False show ?thesis
    by (auto simp: toDouble_def isSafeInteger_minus js_neg_js_neg)
qed

lemma js_less_js_neg: "js_less (js_neg a) (Fin 0) = js_less (Fin 0) a"
  by (cases a) auto

lemma toDouble_int_sign_neg:
  "js_less (toDouble (of_int k)) (Fin 0) = (k < 0)"
proof -
  have "toDouble (of_int k) = js_neg (toDouble (of_int (- k)))"
    using toDouble_minus[of "of_int (- k)"] by simp
  then show ?thesis
    using toDouble_int_sign[of "- k"] by (simp only: js_less_js_neg) simp
qed



subsection \<open>Exactly representable integers\<close>

text \<open>
  \<open>toDouble\<close> returns an integer of magnitude up to \<open>2\<^sup>5\<^sup>3\<close> unchanged. That is what rounding
  gives: such an integer has at most 53 significant bits.
\<close>

lemma roundHalfEven_of_int: "roundHalfEven (of_int k) = k"
  by (simp add: roundHalfEven_def Let_def)

lemma binexp_of_int:
  assumes "0 < n"
  shows "binexp (of_int n) = bitlen n - 1"
proof -
  have b1: "bitlen 1 = 1" by (simp add: bitlen_alt_def)
  have "(2::int) ^ nat (bitlen n - 1) \<le> n" using bitlen_bounds[OF assms] by simp
  then have "(2::rat) ^ nat (bitlen n - 1) \<le> of_int n"
    by (metis of_int_le_iff of_int_numeral of_int_power)
  moreover have "1 \<le> bitlen n"
    using assms bitlen_nonneg[of n] bitlen_eq_zero_iff[of n] by linarith
  ultimately have "power_int (2::rat) (bitlen n - 1) \<le> of_int n"
    by (simp add: power_int_def)
  then show ?thesis by (simp add: binexp_def b1)
qed

lemma roundPos_safe_integer:
  assumes "0 < n" and "n \<le> 9007199254740992"
  shows "roundPos (of_int n) = Fin (of_int n)"
proof (cases "n = 9007199254740992")
  case True
  have "(9007199254740992::int) = 2 ^ 53 + 0" by simp
  then have "bitlen (9007199254740992::int) = 54"
    using bitlen_twopow_add_eq[of 0 53] by simp
  then have u: "max (binexp (of_int n) - 52) (- 1074) = 1"
    using True binexp_of_int[of n] by simp
  have "roundHalfEven (rat_of_int n / power_int 2 1) = 4503599627370496"
    using roundHalfEven_of_int[of 4503599627370496] by (simp add: True)
  then show ?thesis
    unfolding roundPos_def Let_def u by (simp add: True)
next
  case False
  with assms have lt: "n < 2 ^ 53" by simp
  have b0: "1 \<le> bitlen n"
    using assms bitlen_nonneg[of n] bitlen_eq_zero_iff[of n] by linarith
  have b: "bitlen n \<le> 53"
    using lt by (simp add: bitlen_le_iff_power)
  define k where "k = nat (53 - bitlen n)"
  have u: "max (binexp (of_int n) - 52) (- 1074) = - int k"
    using b b0 assms by (simp add: binexp_of_int k_def)
  have d: "rat_of_int n / power_int 2 (- int k) = of_int (n * 2 ^ k)"
    by (simp add: power_int_minus field_simps)
  have "roundHalfEven (rat_of_int n / power_int 2 (- int k)) = n * 2 ^ k"
    unfolding d by (rule roundHalfEven_of_int)
  then show ?thesis
    unfolding roundPos_def Let_def u by (simp add: power_int_minus)
qed

lemma toDouble_agrees_with_rounding:
  assumes "isSafeInteger x" and "x \<noteq> 0"
  shows "toDouble x = (if x < 0 then js_neg (roundPos (- x)) else roundPos x)"
proof -
  from assms obtain n where x: "x = of_int n" and n: "\<bar>n\<bar> \<le> 9007199254740992" "n \<noteq> 0"
    by (metis isSafeInteger_def isSafeInteger_of_int of_int_0)
  show ?thesis
  proof (cases "n < 0")
    case True
    then have "roundPos (of_int (- n)) = Fin (of_int (- n))"
      using n by (intro roundPos_safe_integer) auto
    with True assms(1) show ?thesis by (simp add: toDouble_def x)
  next
    case False
    then have "roundPos (of_int n) = Fin (of_int n)"
      using n by (intro roundPos_safe_integer) auto
    with False assms(1) show ?thesis by (simp add: toDouble_def x)
  qed
qed

subsection \<open>The tally object against the counts of occurrences\<close>

lemma firstSeen_snoc:
  "firstSeen (xs @ [x]) = (if x \<in> set xs then firstSeen xs else firstSeen xs @ [x])"
  by (simp add: firstSeen_def)

lemma set_firstSeen [simp]: "set (firstSeen xs) = set xs"
  by (simp add: firstSeen_def)

lemma distinct_firstSeen [simp]: "distinct (firstSeen xs)"
  by (simp add: firstSeen_def)

lemma setProp_fresh: "k \<notin> fst ` set obj \<Longrightarrow> setProp k v obj = obj @ [(k, v)]"
  by (induction obj) auto

lemma setProp_present:
  "distinct ks \<Longrightarrow> k \<in> set ks \<Longrightarrow>
     setProp k v (map (\<lambda>a. (a, f a)) ks) = map (\<lambda>a. (a, if a = k then v else f a)) ks"
proof (induction ks)
  case Nil
  then show ?case by simp
next
  case (Cons a ks)
  show ?case
  proof (cases "a = k")
    case True
    with Cons.prems have "k \<notin> set ks" by simp
    then have "map (\<lambda>a. (a, if a = k then v else f a)) ks = map (\<lambda>a. (a, f a)) ks"
      by (intro map_cong) auto
    with True show ?thesis by simp
  next
    case False
    with Cons show ?thesis by simp
  qed
qed

lemma map_of_tabulated: "map_of (map (\<lambda>a. (a, f a)) ks) k = (if k \<in> set ks then Some (f k) else None)"
  by (induction ks) auto

lemma increment_tally:
  assumes "inheritedText x = None"
  shows "increment (map asCount (spec_tally xs)) x = map asCount (spec_tally (xs @ [x]))"
proof -
  have t: "map asCount (spec_tally ys) = map (\<lambda>a. (a, JNum (count_list ys a))) (firstSeen ys)" for ys
    by (simp add: spec_tally_def asCount_def comp_def)
  show ?thesis
  proof (cases "x \<in> set xs")
    case True
    then have "increment (map asCount (spec_tally xs)) x
          = setProp x (JNum (count_list xs x + 1)) (map (\<lambda>a. (a, JNum (count_list xs a))) (firstSeen xs))"
      by (simp add: t increment_def map_of_tabulated)
    also have "\<dots> = map (\<lambda>a. (a, if a = x then JNum (count_list xs x + 1) else JNum (count_list xs a)))
                        (firstSeen xs)"
      using True by (simp add: setProp_present)
    also have "\<dots> = map (\<lambda>a. (a, JNum (count_list (xs @ [x]) a))) (firstSeen xs)"
      by (intro map_cong) auto
    finally show ?thesis using True by (simp add: t firstSeen_snoc)
  next
    case False
    then have "increment (map asCount (spec_tally xs)) x
          = setProp x (JNum 1) (map (\<lambda>a. (a, JNum (count_list xs a))) (firstSeen xs))"
      using assms by (simp add: t increment_def map_of_tabulated)
    also have "\<dots> = map (\<lambda>a. (a, JNum (count_list xs a))) (firstSeen xs) @ [(x, JNum 1)]"
      using False by (intro setProp_fresh) (auto simp: image_iff)
    also have "map (\<lambda>a. (a, JNum (count_list xs a))) (firstSeen xs)
                 = map (\<lambda>a. (a, JNum (count_list (xs @ [x]) a))) (firstSeen xs)"
      using False by (intro map_cong) auto
    finally show ?thesis using False by (simp add: t firstSeen_snoc)
  qed
qed

lemma foldl_increment_tally:
  "ordinaryKeys xs \<Longrightarrow> foldl increment [] xs = map asCount (spec_tally xs)"
proof (induction xs rule: rev_induct)
  case Nil
  then show ?case by (simp add: spec_tally_def firstSeen_def)
next
  case (snoc x xs)
  then have "ordinaryKeys xs" and x: "inheritedText x = None"
    by (simp_all add: ordinaryKeys_def)
  with snoc.IH show ?case by (simp add: increment_tally[OF x])
qed

lemma countMaintainers_foldl: "countMaintainers pkgs = foldl increment [] (countedAuthors pkgs)"
proof -
  have "foldl (\<lambda>maintainerCount pkg.
              if author pkg \<noteq> [] \<and> author pkg \<noteq> ''unknown''
              then increment maintainerCount (author pkg) else maintainerCount) obj pkgs
        = foldl increment obj (filter (\<lambda>a. a \<noteq> [] \<and> a \<noteq> ''unknown'') (map author pkgs))" for obj
    by (induction pkgs arbitrary: obj) auto
  then show ?thesis by (simp add: countMaintainers_def countedAuthors_def)
qed

lemma countLicenses_foldl: "countLicenses pkgs = foldl increment [] (licenseKeys pkgs)"
  by (simp add: countLicenses_def licenseKeys_def foldl_map)

lemma keys_setProp: "fst ` set (setProp k v obj) = insert k (fst ` set obj)"
proof (induction obj)
  case Nil
  then show ?case by simp
next
  case (Cons e obj)
  then show ?case by (cases e) (auto simp: image_iff)
qed

lemma keys_increment: "fst ` set (increment obj k) \<subseteq> insert k (fst ` set obj)"
  by (auto simp: increment_def keys_setProp split: option.splits jsval.splits if_splits)

lemma keys_foldl_increment: "fst ` set (foldl increment obj ks) \<subseteq> fst ` set obj \<union> set ks"
proof (induction ks arbitrary: obj)
  case Nil
  then show ?case by simp
next
  case (Cons k ks)
  from Cons.IH[of "increment obj k"] keys_increment[of obj k] show ?case by auto
qed

subsection \<open>The comparator sort against the stable sort by count\<close>

lemma byCountDescending_counts:
  "js_less (Fin 0) (byCountDescending (asCount x) (asCount y)) = (snd x < snd y)"
proof -
  have "byCountDescending (asCount x) (asCount y)
          = toDouble (of_int (int (snd y) - int (snd x)))"
    by (simp add: byCountDescending_def asCount_def toNumber_def)
  then show ?thesis
    using toDouble_int_sign[of "int (snd y) - int (snd x)"] by simp
qed

lemma insertBy_counts:
  "insertBy byCountDescending (asCount x) (map asCount ys)
     = map asCount (insort_key byCountKey x ys)"
  by (induction ys) (auto simp: byCountDescending_counts byCountKey_def)

lemma sortBy_counts:
  "sortBy byCountDescending (map asCount es) = map asCount (sort_key byCountKey es)"
proof (induction es)
  case Nil
  then show ?case by (simp add: sortBy_def)
next
  case (Cons e es)
  have "sortBy byCountDescending (map asCount (e # es))
          = insertBy byCountDescending (asCount e) (sortBy byCountDescending (map asCount es))"
    by (simp add: sortBy_def)
  then show ?case by (simp add: Cons.IH insertBy_counts)
qed

lemma compareSign_counts:
  "compareSign (byCountDescending (asCount x) (asCount y))
     = (if snd y < snd x then - 1 else if snd x < snd y then 1 else 0)"
proof -
  have "byCountDescending (asCount x) (asCount y)
          = toDouble (of_int (int (snd y) - int (snd x)))"
    by (simp add: byCountDescending_def asCount_def toNumber_def)
  then show ?thesis
    using toDouble_int_sign[of "int (snd y) - int (snd x)"]
      toDouble_int_sign_neg[of "int (snd y) - int (snd x)"]
    by (simp add: compareSign_def)
qed

lemma consistentBy_counts: "consistentBy byCountDescending (map asCount es)"
  by (auto simp: consistentBy_def list_all_iff compareSign_counts)

lemma sortEntries_counts:
  "sortEntries engine (map asCount es) = map asCount (sort_key byCountKey es)"
  by (simp add: sortEntries_def consistentBy_counts sortBy_counts)

lemma set_sortEntries: "set (sortEntries engine es) = set es"
  by (auto simp: sortEntries_def set_sortBy dest: mset_eq_setD)

lemma insort_key_map_asCount:
  "insort_key (\<lambda>(k, v). decimalValue k) (asCount x) (map asCount ys)
     = map asCount (insort_key (\<lambda>(k, v). decimalValue k) x ys)"
  by (induction ys) (auto simp: asCount_def split: prod.splits)

lemma sort_key_map_asCount:
  "sort_key (\<lambda>(k, v). decimalValue k) (map asCount es)
     = map asCount (sort_key (\<lambda>(k, v). decimalValue k) es)"
  by (induction es) (simp_all add: insort_key_map_asCount)

lemma Object_entries_counts:
  "Object_entries (map asCount es) = map asCount (Object_entries es)"
proof -
  have f: "filter P' (map asCount es) = map asCount (filter P es)"
    if "\<And>e. P' (asCount e) = P e" for P' P
    using that by (induction es) auto
  have 1: "filter (\<lambda>(k, v). isArrayIndex k) (map asCount es)
             = map asCount (filter (\<lambda>(k, v). isArrayIndex k) es)"
    by (rule f) (simp add: asCount_def split: prod.splits)
  have 2: "filter (\<lambda>(k, v). \<not> isArrayIndex k) (map asCount es)
             = map asCount (filter (\<lambda>(k, v). \<not> isArrayIndex k) es)"
    by (rule f) (simp add: asCount_def split: prod.splits)
  show ?thesis
    by (simp only: Object_entries_def 1 2 sort_key_map_asCount map_append)
qed

lemma set_Object_entries: "set (Object_entries es) = set es"
  by (auto simp: Object_entries_def)

lemma length_Object_entries: "length (Object_entries es) = length es"
  by (simp add: Object_entries_def case_prod_unfold sum_length_filter_compl)

subsection \<open>Claims about the aggregator\<close>

lemma topMaintainers_ordinary:
  assumes "ordinaryKeys (countedAuthors (analyzer_packages this))"
  shows "topMaintainers (generateReport engine this) =
           map asCount (take 10 (sort_key byCountKey
             (Object_entries (spec_tally (countedAuthors (analyzer_packages this))))))"
  by (simp add: generateReport_def countMaintainers_foldl foldl_increment_tally[OF assms]
      Object_entries_counts sortEntries_counts take_map)

lemma sorted_descending_counts:
  "sorted_wrt (\<lambda>x y. countOf (snd y) \<le> countOf (snd x))
     (map asCount (take 10 (sort_key byCountKey es)))"
proof -
  have "sorted (map byCountKey (take 10 (sort_key byCountKey es)))"
    by (simp add: sorted_wrt_take flip: take_map)
  then have "sorted_wrt (\<lambda>x y. byCountKey x \<le> byCountKey y) (take 10 (sort_key byCountKey es))"
    by (simp add: sorted_map)
  then show ?thesis
    by (simp add: sorted_wrt_map asCount_def countOf_def byCountKey_def)
qed

lemma unknown_not_counted: "''unknown'' \<notin> fst ` set (topMaintainers (generateReport engine this))"
proof -
  have "fst ` set (topMaintainers (generateReport engine this))
          \<subseteq> fst ` set (countMaintainers (analyzer_packages this))"
    using set_take_subset[of 10 "sortEntries engine
        (Object_entries (countMaintainers (analyzer_packages this)))"]
    by (auto simp: generateReport_def set_sortEntries set_Object_entries)
  also have "\<dots> \<subseteq> set (countedAuthors (analyzer_packages this))"
    using keys_foldl_increment[of "[]" "countedAuthors (analyzer_packages this)"]
    by (simp add: countMaintainers_foldl)
  finally show ?thesis by (auto simp: countedAuthors_def)
qed

text \<open>
  Claim C6, as amended. The list of top authors has at most ten entries and none is named
  \<^verbatim>\<open>unknown\<close>. When no counted author is named like a member of \<^verbatim>\<open>Object.prototype\<close>, the
  list is the first ten of the authors' counts sorted by descending count, the sort being
  stable on the key order of the tally object: authors whose name is an array index first,
  in ascending numeric order, then the others in the order of their first occurrence.
\<close>

theorem topMaintainers_ranking:
  "length (topMaintainers (generateReport engine this)) \<le> 10
   \<and> ''unknown'' \<notin> fst ` set (topMaintainers (generateReport engine this))
   \<and> (ordinaryKeys (countedAuthors (analyzer_packages this)) \<longrightarrow>
        topMaintainers (generateReport engine this) =
          map asCount (take 10 (sort_key byCountKey
            (Object_entries (spec_tally (countedAuthors (analyzer_packages this))))))
        \<and> sorted_wrt (\<lambda>x y. countOf (snd y) \<le> countOf (snd x))
              (topMaintainers (generateReport engine this)))"
proof -
  have "length (topMaintainers (generateReport engine this)) \<le> 10"
    by (simp add: generateReport_def)
  then show ?thesis
    using unknown_not_counted[of engine this]
    by (auto simp: topMaintainers_ordinary sorted_descending_counts)
qed

text \<open>
  Five packages by \<^verbatim>\<open>amy\<close>, \<^verbatim>\<open>unknown\<close>, \<^verbatim>\<open>zoe\<close>, \<^verbatim>\<open>7\<close> and \<^verbatim>\<open>zoe\<close>: \<^verbatim>\<open>zoe\<close> leads with two, and
  of the two authors with one package \<^verbatim>\<open>7\<close> comes before \<^verbatim>\<open>amy\<close>.
\<close>

theorem topMaintainers_ranking_witness:
  "ordinaryKeys (countedAuthors (analyzer_packages rankedAnalyzer))
   \<and> map author (analyzer_packages rankedAnalyzer) = [''amy'', ''unknown'', ''zoe'', ''7'', ''zoe'']
   \<and> Object_entries (spec_tally (countedAuthors (analyzer_packages rankedAnalyzer)))
       = [(''7'', 1), (''amy'', 1), (''zoe'', 2)]
   \<and> topMaintainers (generateReport exampleEngine rankedAnalyzer)
       = [(''zoe'', JNum 2), (''7'', JNum 1), (''amy'', JNum 1)]"
proof -
  have 1: "ordinaryKeys (countedAuthors (analyzer_packages rankedAnalyzer))" by code_simp
  have 2: "map author (analyzer_packages rankedAnalyzer) = [''amy'', ''unknown'', ''zoe'', ''7'', ''zoe'']"
    by code_simp
  have 3: "Object_entries (spec_tally (countedAuthors (analyzer_packages rankedAnalyzer)))
       = [(''7'', 1), (''amy'', 1), (''zoe'', 2)]"
    by code_simp
  have 4: "map asCount (take 10 (sort_key byCountKey [(''7'', 1), (''amy'', 1), (''zoe'', 2)]))
       = [(''zoe'', JNum 2), (''7'', JNum 1), (''amy'', JNum 1)]"
    by code_simp
  from topMaintainers_ranking[of exampleEngine rankedAnalyzer] 1 2 3 4 show ?thesis by simp
qed

text \<open>
  Claim C6 as stated breaks ties by first-encountered order. With authors \<^verbatim>\<open>b\<close> and then
  \<^verbatim>\<open>7\<close>, one package each, \<^verbatim>\<open>Object.entries\<close> lists the integer-like key \<^verbatim>\<open>7\<close> first, and
  the stable sort keeps it there.
\<close>

theorem topMaintainers_tie_counterexample:
  "firstSeen (countedAuthors (analyzer_packages tiedAnalyzer)) = [''b'', ''7'']
   \<and> map (\<lambda>e. countOf (snd e)) (topMaintainers (generateReport exampleEngine tiedAnalyzer)) = [1, 1]
   \<and> map fst (topMaintainers (generateReport exampleEngine tiedAnalyzer)) = [''7'', ''b'']"
  by code_simp

text \<open>
  Claim C5 at a license that meets an inherited property. Reading the key \<^verbatim>\<open>__proto__\<close> of
  the empty tally gives the prototype object, and the assignment of the string built
  from it is dropped by the inherited setter: the histogram stays empty while
  \<^verbatim>\<open>totalPackages\<close> is \<open>1\<close>, so its values do not sum to the total.
\<close>

theorem license_proto_not_counted:
  "map license (analyzer_packages protoAnalyzer) = [''__proto__'']
   \<and> totalPackages (generateReport exampleEngine protoAnalyzer) = 1
   \<and> licenseDistribution (generateReport exampleEngine protoAnalyzer) = []"
  by code_simp

text \<open>
  For licenses that meet no inherited property the histogram is the tally of the
  specification, and its counts sum to \<^verbatim>\<open>totalPackages\<close>.
\<close>

lemma sum_spec_tally: "sum_list (map snd (spec_tally xs)) = length xs"
proof -
  have "sum_list (map snd (spec_tally xs)) = sum_list (map (count_list xs) (firstSeen xs))"
    by (simp add: spec_tally_def comp_def)
  also have "\<dots> = sum (count_list xs) (set xs)"
    by (simp add: sum_list_distinct_conv_sum_set)
  also have "\<dots> = length xs"
    by (rule sum_count_set) simp_all
  finally show ?thesis .
qed

lemma licenseDistribution_ordinary:
  assumes "ordinaryKeys (licenseKeys (analyzer_packages this))"
  shows "licenseDistribution (generateReport engine this)
           = map asCount (spec_tally (licenseKeys (analyzer_packages this)))"
    and "sum_list (map (\<lambda>e. countOf (snd e)) (licenseDistribution (generateReport engine this)))
           = totalPackages (generateReport engine this)"
proof -
  show d: "licenseDistribution (generateReport engine this)
           = map asCount (spec_tally (licenseKeys (analyzer_packages this)))"
    by (simp add: generateReport_def countLicenses_foldl foldl_increment_tally[OF assms])
  have m: "map (\<lambda>e. countOf (snd e)) (map asCount es) = map snd es" for es
    by (simp add: asCount_def countOf_def)
  show "sum_list (map (\<lambda>e. countOf (snd e)) (licenseDistribution (generateReport engine this)))
           = totalPackages (generateReport engine this)"
    unfolding d m sum_spec_tally by (simp add: generateReport_def licenseKeys_def)
qed

end
